theory Spec2Isabelle
  imports Complex_Main "HOL-Library.Multiset" "HOL-Library.Log_Nat" "HOL-Library.Sublist"
begin

section \<open>Stock-movement ledger of the inventory server\<close>

text \<open>
  The development embeds three request handlers of
  \<^verbatim>\<open>src/supabase/functions/server/index.tsx\<close>:
  \<^item> \<^verbatim>\<open>POST /movements\<close> (register a stock movement),
  \<^item> \<^verbatim>\<open>PATCH /products/:id/stock\<close> (direct stock update),
  \<^item> \<^verbatim>\<open>GET /movements/stats\<close> (movement statistics).

  Conventions of the embedding.
  \<^item> A JavaScript \<^verbatim>\<open>number\<close> is an IEEE binary64 value: a finite rational, an infinity
    or NaN. Every addition and subtraction rounds its exact result to the nearest binary64
    value, ties to even, and overflows to an infinity. The two zeros are one value: the
    handlers compare and add numbers, and neither operation tells \<^verbatim>\<open>-0\<close> from \<^verbatim>\<open>0\<close>.
  \<^item> A timestamp is the integer \<^verbatim>\<open>new Date(s).getTime()\<close> of the ISO string the code
    stores (\<^verbatim>\<open>toISOString\<close> and \<^verbatim>\<open>new Date\<close> are inverse on the strings the server
    writes). Timestamps are integers below \<open>2\<^sup>5\<^sup>3\<close> in magnitude, on which the comparisons the
    handlers make are exact.
  \<^item> The key-value store is one map per key prefix (\<^verbatim>\<open>product:\<close>, \<^verbatim>\<open>user:\<close>,
    \<^verbatim>\<open>movement:\<close>) and holds the objects the handlers pass to \<^verbatim>\<open>kv.set\<close>;
    \<^verbatim>\<open>kv.set\<close> is an upsert that always succeeds, so the \<^verbatim>\<open>catch\<close> branches answering
    500 are not modelled, and neither is the encoding the store gives to an infinity or to NaN.
  \<^item> \<^verbatim>\<open>verifyAuth\<close>, the clock and the random generator are the environment: their
    results are inputs of the handlers.
\<close>

subsection \<open>JavaScript numbers\<close>

datatype jsnum = Fin rat | PosInf | NegInf | NaN

text \<open>The binary exponent of a rational \<open>x \<noteq> 0\<close>: the \<open>e\<close> with \<open>2\<^sup>e \<le> |x| < 2\<^sup>e\<^sup>+\<^sup>1\<close>,
  from the bit length of \<open>\<lfloor>|x|\<rfloor>\<close> when \<open>|x| \<ge> 1\<close> and of \<open>\<lceil>1 / |x|\<rceil> - 1\<close> otherwise.\<close>

definition expo :: "rat \<Rightarrow> int" where
  "expo x = (if 1 \<le> \<bar>x\<bar> then bitlen \<lfloor>\<bar>x\<bar>\<rfloor> - 1 else - bitlen (\<lceil>1 / \<bar>x\<bar>\<rceil> - 1))"

text \<open>Rounding to the nearest integer, a tie to the even one.\<close>

definition round_even :: "rat \<Rightarrow> int" where
  "round_even r =
    (let f = \<lfloor>r\<rfloor>; d = r - of_int f
     in if d < 1 / 2 then f else if 1 / 2 < d then f + 1 else if even f then f else f + 1)"

text \<open>Rounding a rational to binary64: 53 significant bits, the least exponent \<open>-1022\<close>
  (below it the spacing stays \<open>2\<^sup>-\<^sup>1\<^sup>0\<^sup>7\<^sup>4\<close>), and an infinity once the rounded magnitude
  reaches \<open>2\<^sup>1\<^sup>0\<^sup>2\<^sup>4\<close>.\<close>

definition round64 :: "rat \<Rightarrow> jsnum" where
  "round64 x =
    (if x = 0 then Fin 0
     else
      let ulp = 2 powi (max (expo x) (- 1022) - 52);
          y = of_int (round_even (x / ulp)) * ulp
      in if 2 ^ 1024 \<le> \<bar>y\<bar> then (if 0 < x then PosInf else NegInf) else Fin y)"

text \<open>The operators the handlers use: unary minus, \<^verbatim>\<open>+\<close>, \<^verbatim>\<open>-\<close>, \<^verbatim>\<open><\<close>,
  \<^verbatim>\<open><=\<close> and \<^verbatim>\<open>Math.max\<close>. A comparison with NaN is false; \<^verbatim>\<open>Math.max\<close> of NaN is
  NaN.\<close>

fun js_neg :: "jsnum \<Rightarrow> jsnum" where
  "js_neg (Fin a) = Fin (- a)"
| "js_neg PosInf = NegInf"
| "js_neg NegInf = PosInf"
| "js_neg NaN = NaN"

fun js_add :: "jsnum \<Rightarrow> jsnum \<Rightarrow> jsnum" where
  "js_add (Fin a) (Fin b) = round64 (a + b)"
| "js_add NaN b = NaN"
| "js_add a NaN = NaN"
| "js_add PosInf NegInf = NaN"
| "js_add NegInf PosInf = NaN"
| "js_add PosInf b = PosInf"
| "js_add a PosInf = PosInf"
| "js_add NegInf b = NegInf"
| "js_add a NegInf = NegInf"

definition js_sub :: "jsnum \<Rightarrow> jsnum \<Rightarrow> jsnum" where
  "js_sub a b = js_add a (js_neg b)"

fun js_lt :: "jsnum \<Rightarrow> jsnum \<Rightarrow> bool" where
  "js_lt (Fin a) (Fin b) = (a < b)"
| "js_lt (Fin a) PosInf = True"
| "js_lt NegInf (Fin b) = True"
| "js_lt NegInf PosInf = True"
| "js_lt a b = False"

definition js_le :: "jsnum \<Rightarrow> jsnum \<Rightarrow> bool" where
  "js_le a b = (js_lt a b \<or> (a = b \<and> a \<noteq> NaN))"

definition js_max :: "jsnum \<Rightarrow> jsnum \<Rightarrow> jsnum" where
  "js_max a b = (if a = NaN \<or> b = NaN then NaN else if js_lt a b then b else a)"

subsection \<open>Data model\<close>

text \<open>A value read from a JSON request body; \<open>JOther\<close> stands for arrays and objects. A
  JSON number is finite or, when its literal overflows (\<^verbatim>\<open>1e400\<close>), an infinity; it is
  never NaN.\<close>

datatype jsval = JUndefined | JNull | JBool bool | JNum jsnum | JStr string | JOther

text \<open>JavaScript truthiness, as used by \<^verbatim>\<open>!type\<close>.\<close>

fun truthy :: "jsval \<Rightarrow> bool" where
  "truthy JUndefined = False"
| "truthy JNull = False"
| "truthy (JBool b) = b"
| "truthy (JNum n) = (n \<noteq> Fin 0 \<and> n \<noteq> NaN)"
| "truthy (JStr s) = (s \<noteq> [])"
| "truthy JOther = True"

text \<open>\<^verbatim>\<open>interface Product\<close> of \<^verbatim>\<open>types/inventory.ts\<close>: a stored product has the
  fields of the interface, so its \<open>stock\<close> is a number.\<close>

record product =
  id_p :: string
  name_p :: string
  category :: string
  price :: jsnum
  stock :: jsnum
  minStock :: jsnum
  description :: "string option"
  createdAt_p :: int
  updatedAt :: int

text \<open>The user record the server keeps under \<^verbatim>\<open>user:{id}\<close>.\<close>

record user_data =
  id_u :: string
  email :: string
  name_u :: string
  role :: string
  isActive :: bool

text \<open>\<^verbatim>\<open>interface StockMovement\<close>; \<open>type_m\<close> is the field \<^verbatim>\<open>type\<close>, kept a string as
  in the stored JSON.\<close>

record movement =
  id_m :: string
  productId :: string
  productName :: string
  type_m :: string
  quantity :: jsnum
  reason :: string
  userId :: string
  userName :: string
  previousStock :: jsnum
  newStock :: jsnum
  createdAt :: int

text \<open>The key-value store, one map per prefix. A movement lives under the key
  \<^verbatim>\<open>movement:${productId}:${movementId}\<close>.\<close>

record store =
  products :: "string \<rightharpoonup> product"
  users :: "string \<rightharpoonup> user_data"
  movements :: "string \<rightharpoonup> movement"

definition movement_key :: "string \<Rightarrow> string \<Rightarrow> string" where
  "movement_key pid mid = pid @ '':'' @ mid"

text \<open>What the environment supplies to one \<^verbatim>\<open>POST /movements\<close>: the identifier
  \<^verbatim>\<open>`${Date.now()}-${Math.random().toString(36).substr(2, 9)}`\<close> and the two later clock
  readings.\<close>

record env =
  movementId :: string
  now_createdAt :: int
  now_updatedAt :: int

text \<open>The body of \<^verbatim>\<open>POST /movements\<close> with the result of \<^verbatim>\<open>verifyAuth\<close>:
  \<open>auth\<close> is the id of the verified user, or \<open>None\<close> when verification fails.
  \<open>req_productId\<close> is a JSON string, or \<open>None\<close> when the field is absent or null
  (the client's \<^verbatim>\<open>StockMovementFormData\<close> sends a string; other JSON values in this field
  are outside the model).\<close>

record movement_request =
  auth :: "string option"
  req_productId :: "string option"
  req_type :: jsval
  req_quantity :: jsval
  req_reason :: "string option"

text \<open>The failures of the handlers. \<open>Unauthorized\<close> is the 401 answer,
  \<open>InvalidInput\<close> a 400 answer with its message, \<open>NotFound\<close> a 404 answer with its
  message, and \<open>InsufficientStock\<close> the 400 answer that carries \<^verbatim>\<open>availableStock\<close>.\<close>

datatype error =
  Unauthorized
| InvalidInput string
| NotFound string
| InsufficientStock jsnum

text \<open>The 201 answer of \<^verbatim>\<open>POST /movements\<close>.\<close>

record movement_result =
  res_movement :: movement
  res_updatedProduct :: product
  res_message :: string

subsection \<open>POST /movements\<close>

definition invalid_fields :: string where
  "invalid_fields = ''Missing or invalid required fields: productId, type, quantity (must be positive number)''"

definition invalid_type :: string where
  "invalid_type = ''Invalid movement type. Must be \"entrada\" or \"salida\"''"

text \<open>The handler: the answer and the store after it. The checks come in the order of the
  source; a \<open>req_type\<close> that is truthy but no string fails the \<^verbatim>\<open>includes\<close> test like
  an unknown string does.\<close>

definition registerMovement ::
  "env \<Rightarrow> store \<Rightarrow> movement_request \<Rightarrow> (error + movement_result) \<times> store" where
  "registerMovement e s req =
    (case auth req of
       None \<Rightarrow> (Inl Unauthorized, s)
     | Some uid \<Rightarrow>
      (case req_quantity req of
         JNum qty \<Rightarrow>
          (case req_productId req of
             None \<Rightarrow> (Inl (InvalidInput invalid_fields), s)
           | Some pid \<Rightarrow>
              if pid = [] \<or> \<not> truthy (req_type req) \<or> js_le qty (Fin 0)
              then (Inl (InvalidInput invalid_fields), s)
              else
               (case req_type req of
                  JStr ty \<Rightarrow>
                   if ty \<noteq> ''entrada'' \<and> ty \<noteq> ''salida''
                   then (Inl (InvalidInput invalid_type), s)
                   else
                    (case products s pid of
                       None \<Rightarrow> (Inl (NotFound ''Product not found''), s)
                     | Some product \<Rightarrow>
                        (case users s uid of
                           None \<Rightarrow> (Inl (NotFound ''User data not found''), s)
                         | Some userData \<Rightarrow>
                            let previousStock = stock product;
                                newStock = (if ty = ''entrada'' then js_add previousStock qty
                                            else js_max (Fin 0) (js_sub previousStock qty))
                            in
                             if ty \<noteq> ''entrada'' \<and> js_lt previousStock qty
                             then (Inl (InsufficientStock previousStock), s)
                             else
                              let mv = \<lparr> id_m = movementId e,
                                         productId = pid,
                                         productName = name_p product,
                                         type_m = ty,
                                         quantity = qty,
                                         reason = (case req_reason req of None \<Rightarrow> [] | Some r \<Rightarrow> r),
                                         userId = uid,
                                         userName = name_u userData,
                                         previousStock = previousStock,
                                         newStock = newStock,
                                         createdAt = now_createdAt e \<rparr>;
                                  updatedProduct =
                                    product \<lparr> stock := newStock, updatedAt := now_updatedAt e \<rparr>
                              in (Inr \<lparr> res_movement = mv,
                                        res_updatedProduct = updatedProduct,
                                        res_message =
                                          (if ty = ''entrada'' then ''Entrada'' else ''Salida'')
                                          @ '' registrada exitosamente'' \<rparr>,
                                  s \<lparr> products := (products s)(pid \<mapsto> updatedProduct),
                                      movements :=
                                        (movements s)(movement_key pid (movementId e) \<mapsto> mv) \<rparr>)))
                | _ \<Rightarrow> (Inl (InvalidInput invalid_type), s)))
       | _ \<Rightarrow> (Inl (InvalidInput invalid_fields), s)))"

subsection \<open>PATCH /products/:id/stock\<close>

text \<open>The request: the result of \<^verbatim>\<open>verifyAuth\<close>, the route parameter and the body's
  \<^verbatim>\<open>quantity\<close>.\<close>

record stock_request =
  sr_auth :: "string option"
  sr_id :: string
  sr_quantity :: jsval

definition updateProductStock ::
  "int \<Rightarrow> store \<Rightarrow> stock_request \<Rightarrow> (error + product) \<times> store" where
  "updateProductStock now s req =
    (case sr_auth req of
       None \<Rightarrow> (Inl Unauthorized, s)
     | Some uid \<Rightarrow>
      (case sr_quantity req of
         JNum qty \<Rightarrow>
          (case products s (sr_id req) of
             None \<Rightarrow> (Inl (NotFound ''Product not found''), s)
           | Some existingProduct \<Rightarrow>
              let newStock = js_max (Fin 0) (js_add (stock existingProduct) qty);
                  updatedProduct = existingProduct \<lparr> stock := newStock, updatedAt := now \<rparr>
              in (Inr updatedProduct,
                  s \<lparr> products := (products s)(sr_id req \<mapsto> updatedProduct) \<rparr>))
       | _ \<Rightarrow> (Inl (InvalidInput ''Invalid quantity value''), s)))"

subsection \<open>GET /movements/stats\<close>

record summary =
  totalMovements :: nat
  totalEntradas :: nat
  totalSalidas :: nat
  totalQuantityEntradas :: jsnum
  totalQuantitySalidas :: jsnum
  netMovement :: jsnum
  recentMovements :: nat

text \<open>One entry of \<^verbatim>\<open>productStats\<close>; the prefix \<open>ps_\<close> keeps its fields apart from
  those of a movement and of the summary.\<close>

record product_stat =
  ps_productId :: string
  ps_productName :: string
  ps_totalEntradas :: jsnum
  ps_totalSalidas :: jsnum
  ps_movementCount :: jsnum

record statistics =
  summary :: summary
  productStats :: "product_stat list"
  recentActivity :: "movement list"

text \<open>\<^verbatim>\<open>xs.reduce((sum, m) => sum + m.quantity, 0)\<close>.\<close>

definition sum_quantity :: "movement list \<Rightarrow> jsnum" where
  "sum_quantity xs = foldl (\<lambda>sum m. js_add sum (quantity m)) (Fin 0) xs"

text \<open>\<^verbatim>\<open>sevenDaysAgo.setDate(sevenDaysAgo.getDate() - 7)\<close> on the current time, in
  milliseconds; the server's clock runs in UTC, where a day has 86400000 ms.\<close>

definition sevenDaysAgo :: "int \<Rightarrow> int" where
  "sevenDaysAgo now = now - 7 * 86400000"

text \<open>The callback of the \<^verbatim>\<open>reduce\<close> that groups by product. The accumulator object
  \<^verbatim>\<open>acc\<close> is the association list of its own properties, in the order of their creation.
  The read \<^verbatim>\<open>acc[k]\<close> also finds what every object inherits from
  \<^verbatim>\<open>Object.prototype\<close>: for such a key the test \<^verbatim>\<open>!acc[k]\<close> is false, no entry is
  created, and the increments land on the inherited value, so \<^verbatim>\<open>acc\<close> keeps its own
  properties as they are.\<close>

definition object_prototype_names :: "string list" where
  "object_prototype_names =
    [''constructor'', ''__defineGetter__'', ''__defineSetter__'', ''hasOwnProperty'',
     ''__lookupGetter__'', ''__lookupSetter__'', ''isPrototypeOf'', ''propertyIsEnumerable'',
     ''toString'', ''valueOf'', ''__proto__'', ''toLocaleString'']"

definition group_step ::
  "(string \<times> product_stat) list \<Rightarrow> movement \<Rightarrow> (string \<times> product_stat) list" where
  "group_step acc mv =
    (if productId mv \<in> set object_prototype_names then acc
     else
      let acc1 =
        (if map_of acc (productId mv) = None
         then acc @ [(productId mv,
                      \<lparr> ps_productId = productId mv,
                        ps_productName = productName mv,
                        ps_totalEntradas = Fin 0,
                        ps_totalSalidas = Fin 0,
                        ps_movementCount = Fin 0 \<rparr>)]
         else acc)
      in map (\<lambda>(k, st).
               if k = productId mv
               then (k, (if type_m mv = ''entrada''
                         then st \<lparr> ps_movementCount := js_add (ps_movementCount st) (Fin 1),
                                   ps_totalEntradas :=
                                     js_add (ps_totalEntradas st) (quantity mv) \<rparr>
                         else st \<lparr> ps_movementCount := js_add (ps_movementCount st) (Fin 1),
                                   ps_totalSalidas :=
                                     js_add (ps_totalSalidas st) (quantity mv) \<rparr>))
               else (k, st)) acc1)"

text \<open>\<^verbatim>\<open>Object.values\<close> lists the properties whose key is an array index (a canonical
  decimal numeral below \<open>2\<^sup>3\<^sup>2 - 1\<close>) first, in ascending numeric order, and the others
  after them in the order of their creation.\<close>

definition is_digit :: "char \<Rightarrow> bool" where
  "is_digit c = (48 \<le> (of_char c :: int) \<and> (of_char c :: int) \<le> 57)"

definition decimal :: "string \<Rightarrow> int" where
  "decimal k = foldl (\<lambda>n c. 10 * n + (of_char c - 48)) 0 k"

definition is_array_index :: "string \<Rightarrow> bool" where
  "is_array_index k =
    (k \<noteq> [] \<and> list_all is_digit k \<and> (k = ''0'' \<or> hd k \<noteq> CHR ''0'')
     \<and> decimal k < 4294967295)"

definition object_values :: "(string \<times> 'a) list \<Rightarrow> 'a list" where
  "object_values obj =
    map snd (sort_key (\<lambda>kv. decimal (fst kv)) (filter (\<lambda>kv. is_array_index (fst kv)) obj)
             @ filter (\<lambda>kv. \<not> is_array_index (fst kv)) obj)"

text \<open>\<^verbatim>\<open>xs.sort((a, b) => new Date(b.createdAt).getTime() - new Date(a.createdAt).getTime())\<close>:
  descending by \<open>createdAt\<close>. \<^verbatim>\<open>Array.prototype.sort\<close> is stable, as \<open>sort_key\<close> is.\<close>

definition newest_first :: "movement list \<Rightarrow> movement list" where
  "newest_first xs = sort_key (\<lambda>m. - createdAt m) xs"

text \<open>The two partitions \<^verbatim>\<open>movements.filter(m => m.type === 'entrada')\<close> and
  \<^verbatim>\<open>movements.filter(m => m.type === 'salida')\<close>, and the movements of the last seven
  days.\<close>

definition entradas_of :: "movement list \<Rightarrow> movement list" where
  "entradas_of mvs = filter (\<lambda>m. type_m m = ''entrada'') mvs"

definition salidas_of :: "movement list \<Rightarrow> movement list" where
  "salidas_of mvs = filter (\<lambda>m. type_m m = ''salida'') mvs"

definition recent_of :: "int \<Rightarrow> movement list \<Rightarrow> movement list" where
  "recent_of now mvs = filter (\<lambda>m. createdAt m > sevenDaysAgo now) mvs"

text \<open>The handler, on the list \<^verbatim>\<open>kv.getByPrefix('movement:')\<close> returns and the current
  time.\<close>

definition movementStatistics :: "int \<Rightarrow> movement list \<Rightarrow> statistics" where
  "movementStatistics now mvs =
    (let entradas = entradas_of mvs;
         salidas = salidas_of mvs;
         totalEntradas = sum_quantity entradas;
         totalSalidas = sum_quantity salidas;
         recentMovements = recent_of now mvs;
         productStats = foldl group_step [] mvs
     in \<lparr> summary =
            \<lparr> totalMovements = length mvs,
              totalEntradas = length entradas,
              totalSalidas = length salidas,
              totalQuantityEntradas = totalEntradas,
              totalQuantitySalidas = totalSalidas,
              netMovement = js_sub totalEntradas totalSalidas,
              recentMovements = length recentMovements \<rparr>,
          productStats = object_values productStats,
          recentActivity = take 10 (newest_first recentMovements) \<rparr>)"

subsection \<open>The two stock-changing operations of the ledger\<close>

text \<open>One operation is one request to \<^verbatim>\<open>POST /movements\<close> or to
  \<^verbatim>\<open>PATCH /products/:id/stock\<close>, the two handlers that compute a new stock from the old
  one. The product-catalogue handlers (create, edit, delete), which store what the client
  sends, are not part of the model.\<close>

datatype operation = Register env movement_request | UpdateStock int stock_request

fun step :: "store \<Rightarrow> operation \<Rightarrow> store" where
  "step s (Register e req) = snd (registerMovement e s req)"
| "step s (UpdateStock now req) = snd (updateProductStock now s req)"

subsection \<open>Predicates of the specification\<close>

text \<open>A number is an integer (\<^verbatim>\<open>Number.isInteger\<close>), and an integer of magnitude at most
  \<open>2\<^sup>5\<^sup>3\<close>, the range in which every integer is a binary64 value.\<close>

definition is_integer :: "rat \<Rightarrow> bool" where
  "is_integer x = (of_int \<lfloor>x\<rfloor> = x)"

definition safe_int :: "rat \<Rightarrow> bool" where
  "safe_int x = (is_integer x \<and> \<bar>x\<bar> \<le> 9007199254740992)"


text \<open>What a stock can be: a finite number that is not negative; that or \<open>+\<infinity>\<close>; a finite
  integer; that or \<open>+\<infinity>\<close>.\<close>

definition nonneg_finite :: "jsnum \<Rightarrow> bool" where
  "nonneg_finite n = (case n of Fin x \<Rightarrow> 0 \<le> x | _ \<Rightarrow> False)"

definition nonneg_number :: "jsnum \<Rightarrow> bool" where
  "nonneg_number n = (n = PosInf \<or> nonneg_finite n)"

definition js_integer :: "jsnum \<Rightarrow> bool" where
  "js_integer n = (case n of Fin x \<Rightarrow> is_integer x | _ \<Rightarrow> False)"

definition integer_or_inf :: "jsnum \<Rightarrow> bool" where
  "integer_or_inf n = (n = PosInf \<or> js_integer n)"

text \<open>\<open>stock_all Q s\<close>: the stock of every product of the store satisfies \<open>Q\<close>.\<close>

definition stock_all :: "(jsnum \<Rightarrow> bool) \<Rightarrow> store \<Rightarrow> bool" where
  "stock_all Q s = (\<forall>pid P. products s pid = Some P \<longrightarrow> Q (stock P))"

text \<open>The quantity of a request is what JSON can carry (no NaN), and is an integer.\<close>

definition json_quantity :: "jsval \<Rightarrow> bool" where
  "json_quantity v = (v \<noteq> JNum NaN)"

definition integral_quantity :: "jsval \<Rightarrow> bool" where
  "integral_quantity v = (case v of JNum q \<Rightarrow> js_integer q | _ \<Rightarrow> True)"

fun json_operation :: "operation \<Rightarrow> bool" where
  "json_operation (Register e req) = json_quantity (req_quantity req)"
| "json_operation (UpdateStock now req) = json_quantity (sr_quantity req)"

fun integral_operation :: "operation \<Rightarrow> bool" where
  "integral_operation (Register e req) = integral_quantity (req_quantity req)"
| "integral_operation (UpdateStock now req) = integral_quantity (sr_quantity req)"

text \<open>The exact value of a movement's quantity, and the lists of movements whose quantities
  are non-negative integers.\<close>

definition exact_quantity :: "movement \<Rightarrow> rat" where
  "exact_quantity m = (case quantity m of Fin x \<Rightarrow> x | _ \<Rightarrow> 0)"

definition nat_quantities :: "movement list \<Rightarrow> bool" where
  "nat_quantities M =
    list_all (\<lambda>m. case quantity m of Fin x \<Rightarrow> is_integer x \<and> 0 \<le> x | _ \<Rightarrow> False) M"




subsection \<open>Sample data\<close>

text \<open>The first product of \<^verbatim>\<open>init-sample-data\<close> with a given stock, a demo user, and the
  store holding a product and that user beside given movements.\<close>

definition cola :: "jsnum \<Rightarrow> int \<Rightarrow> product" where
  "cola n t = \<lparr> id_p = ''1'', name_p = ''Coca Cola 600ml'', category = ''Bebidas'',
     price = Fin 5, stock = n, minStock = Fin 5,
     description = Some ''Bebida gaseosa sabor cola'',
     createdAt_p = 1705276800000, updatedAt = t \<rparr>"

definition cocaCola :: product where
  "cocaCola = cola (Fin 24) 1705276800000"

definition admin :: user_data where
  "admin = \<lparr> id_u = ''u1'', email = ''admin@tienda.com'', name_u = ''Administrador Principal'',
     role = ''admin'', isActive = True \<rparr>"

definition store_of :: "product \<Rightarrow> (string \<rightharpoonup> movement) \<Rightarrow> store" where
  "store_of P ms = \<lparr> products = [''1'' \<mapsto> P], users = [''u1'' \<mapsto> admin], movements = ms \<rparr>"

definition store0 :: store where
  "store0 = store_of cocaCola Map.empty"

definition env0 :: env where
  "env0 = \<lparr> movementId = ''1700000000000-k3j9x2m1q'', now_createdAt = 1700000000000,
     now_updatedAt = 1700000000001 \<rparr>"

text \<open>A well-formed request of the demo user on product 1.\<close>

definition request :: "string \<Rightarrow> jsnum \<Rightarrow> movement_request" where
  "request ty q = \<lparr> auth = Some ''u1'', req_productId = Some ''1'', req_type = JStr ty,
     req_quantity = JNum q, req_reason = None \<rparr>"

text \<open>The movement that such a request registers under \<open>env0\<close>, given the stock before and
  after, and the store after it.\<close>

definition registered :: "string \<Rightarrow> jsnum \<Rightarrow> jsnum \<Rightarrow> jsnum \<Rightarrow> movement" where
  "registered ty q before after = \<lparr> id_m = ''1700000000000-k3j9x2m1q'', productId = ''1'',
     productName = ''Coca Cola 600ml'', type_m = ty, quantity = q, reason = [],
     userId = ''u1'', userName = ''Administrador Principal'', previousStock = before,
     newStock = after, createdAt = 1700000000000 \<rparr>"

definition store_after :: "movement \<Rightarrow> store" where
  "store_after mv = store_of (cola (newStock mv) 1700000000001)
     [''1:1700000000000-k3j9x2m1q'' \<mapsto> mv]"

text \<open>A salida of 10 and an entrada of 2.5 on \<open>store0\<close>.\<close>

definition salida10 :: movement where
  "salida10 = registered ''salida'' (Fin 10) (Fin 24) (Fin 14)"

definition cocaCola14 :: product where
  "cocaCola14 = cola (Fin 14) 1700000000001"

definition store1 :: store where
  "store1 = store_after salida10"




text \<open>Movements at the edge of the integers that binary64 holds: a salida of 1 on a stock of
  \<open>2\<^sup>5\<^sup>3 + 2\<close>, an entrada of 1 on \<open>2\<^sup>5\<^sup>3\<close>, and a salida of 1 on \<open>2\<^sup>5\<^sup>3 + 4\<close>.\<close>

definition salida_edge :: movement where
  "salida_edge = registered ''salida'' (Fin 1) (Fin 9007199254740994) (Fin 9007199254740992)"

definition entrada_edge :: movement where
  "entrada_edge = registered ''entrada'' (Fin 1) (Fin 9007199254740992) (Fin 9007199254740992)"

definition salida_tie :: movement where
  "salida_tie = registered ''salida'' (Fin 1) (Fin 9007199254740996) (Fin 9007199254740996)"

text \<open>Direct stock updates of product 1, by 5 and by 0.5, and what they produce.\<close>

definition patch :: "jsnum \<Rightarrow> stock_request" where
  "patch q = \<lparr> sr_auth = Some ''u1'', sr_id = ''1'', sr_quantity = JNum q \<rparr>"

definition patch5 :: stock_request where
  "patch5 = patch (Fin 5)"

definition patch_half :: stock_request where
  "patch_half = patch (Fin (1 / 2))"

definition cocaCola29 :: product where
  "cocaCola29 = cola (Fin 29) 1700000000002"

definition store29 :: store where
  "store29 = store_of cocaCola29 Map.empty"

definition cocaCola245 :: product where
  "cocaCola245 = cola (Fin (49 / 2)) 1700000000002"

definition store245 :: store where
  "store245 = store_of cocaCola245 Map.empty"

text \<open>Three stored movements: two of product 1, which was renamed between them, within the
  last seven days before \<open>now0\<close>, and an older one of product 2.\<close>

definition now0 :: int where
  "now0 = 1700000000000"

definition mv1 :: movement where
  "mv1 = \<lparr> id_m = ''1699900000000-aaaaaaaaa'', productId = ''1'',
     productName = ''Coca Cola 600ml'', type_m = ''entrada'', quantity = Fin 10, reason = [],
     userId = ''u1'', userName = ''Administrador Principal'', previousStock = Fin 24,
     newStock = Fin 34, createdAt = 1699900000000 \<rparr>"

definition mv2 :: movement where
  "mv2 = \<lparr> id_m = ''1699950000000-bbbbbbbbb'', productId = ''1'',
     productName = ''Coca Cola 500ml'', type_m = ''salida'', quantity = Fin 4, reason = [],
     userId = ''u1'', userName = ''Administrador Principal'', previousStock = Fin 34,
     newStock = Fin 30, createdAt = 1699950000000 \<rparr>"

definition mv3 :: movement where
  "mv3 = \<lparr> id_m = ''1699000000000-ccccccccc'', productId = ''2'',
     productName = ''Papas Fritas'', type_m = ''entrada'', quantity = Fin 6, reason = [],
     userId = ''u1'', userName = ''Administrador Principal'', previousStock = Fin 15,
     newStock = Fin 21, createdAt = 1699000000000 \<rparr>"



text \<open>Three stored movements of product 3 with large quantities: entradas of \<open>2\<^sup>5\<^sup>3\<close> and of 1
  and a salida of \<open>2\<^sup>5\<^sup>3\<close>; and the entry of \<^verbatim>\<open>productStats\<close> for the two entradas.\<close>

definition big :: "string \<Rightarrow> jsnum \<Rightarrow> movement" where
  "big ty q = \<lparr> id_m = ''1699960000000-ddddddddd'', productId = ''3'',
     productName = ''Chocolate Sublime'', type_m = ty, quantity = q, reason = [],
     userId = ''u1'', userName = ''Administrador Principal'', previousStock = Fin 8,
     newStock = Fin 8, createdAt = 1699960000000 \<rparr>"

definition big_movements :: "movement list" where
  "big_movements = [big ''entrada'' (Fin 9007199254740992), big ''entrada'' (Fin 1),
     big ''salida'' (Fin 9007199254740992)]"



section \<open>Properties\<close>

subsection \<open>Binary64 arithmetic\<close>

text \<open>The exponent \<open>expo x\<close> is the one with \<open>2\<^sup>e \<le> \<bar>x\<bar> < 2\<^sup>e\<^sup>+\<^sup>1\<close>; rounding is the identity on
  the integers of magnitude at most \<open>2\<^sup>5\<^sup>3\<close> and on the dyadic numbers with a 53-bit
  numerator, keeps the sign, and takes integers to integers or to an infinity.\<close>

lemma powi_nat: "0 \<le> k \<Longrightarrow> (2::rat) powi k = 2 ^ nat k"
  by (simp add: power_int_def)

lemma expo_lower:
  assumes "x \<noteq> 0"
  shows "2 powi expo x \<le> \<bar>x\<bar>"
proof (cases "1 \<le> \<bar>x\<bar>")
  case True
  let ?n = "\<lfloor>\<bar>x\<bar>\<rfloor>"
  from True have n: "0 < ?n" by simp
  then have b1: "1 \<le> bitlen ?n" by (simp add: bitlen_alt_def)
  from bitlen_bounds [OF n] have "(2::int) ^ nat (bitlen ?n - 1) \<le> ?n" by simp
  then have "(of_int (2 ^ nat (bitlen ?n - 1)) :: rat) \<le> of_int ?n"
    by (simp only: of_int_le_iff)
  also have "\<dots> \<le> \<bar>x\<bar>" by simp
  finally have "(2::rat) ^ nat (bitlen ?n - 1) \<le> \<bar>x\<bar>" by simp
  with True b1 show ?thesis by (simp add: expo_def powi_nat)
next
  case False
  let ?t = "1 / \<bar>x\<bar>"
  let ?c = "\<lceil>?t\<rceil> - 1"
  from False assms have t: "1 < ?t" by simp
  then have c: "0 < ?c" by linarith
  from bitlen_bounds [OF c] have "?c < 2 ^ nat (bitlen ?c)" by simp
  then have "\<lceil>?t\<rceil> \<le> 2 ^ nat (bitlen ?c)" by simp
  then have "?t \<le> of_int (2 ^ nat (bitlen ?c))" by (simp only: ceiling_le_iff)
  then have le: "?t \<le> 2 ^ nat (bitlen ?c)" by simp
  have xpos: "0 < \<bar>x\<bar>" using assms by simp
  from le xpos have "1 \<le> 2 ^ nat (bitlen ?c) * \<bar>x\<bar>"
    by (simp add: field_simps)
  then have "1 / 2 ^ nat (bitlen ?c) \<le> \<bar>x\<bar>"
    by (simp add: field_simps)
  moreover have "(2::rat) powi (- bitlen ?c) = 1 / 2 ^ nat (bitlen ?c)"
    by (simp add: power_int_minus_divide powi_nat bitlen_nonneg)
  ultimately show ?thesis using False by (simp add: expo_def)
qed

lemma expo_upper:
  assumes "x \<noteq> 0"
  shows "\<bar>x\<bar> < 2 powi (expo x + 1)"
proof (cases "1 \<le> \<bar>x\<bar>")
  case True
  let ?n = "\<lfloor>\<bar>x\<bar>\<rfloor>"
  from True have n: "0 < ?n" by simp
  then have b1: "1 \<le> bitlen ?n" by (simp add: bitlen_alt_def)
  from bitlen_bounds [OF n] have "?n + 1 \<le> 2 ^ nat (bitlen ?n)" by simp
  then have "(of_int (?n + 1) :: rat) \<le> of_int (2 ^ nat (bitlen ?n))"
    by (simp only: of_int_le_iff)
  then have "of_int ?n + 1 \<le> (2::rat) ^ nat (bitlen ?n)" by simp
  moreover have "\<bar>x\<bar> < of_int ?n + 1" by linarith
  ultimately have "\<bar>x\<bar> < 2 ^ nat (bitlen ?n)" by linarith
  with True b1 show ?thesis by (simp add: expo_def powi_nat)
next
  case False
  let ?t = "1 / \<bar>x\<bar>"
  let ?c = "\<lceil>?t\<rceil> - 1"
  from False assms have t: "1 < ?t" by simp
  then have c: "0 < ?c" by linarith
  then have b1: "1 \<le> bitlen ?c" by (simp add: bitlen_alt_def)
  from bitlen_bounds [OF c] have "(2::int) ^ nat (bitlen ?c - 1) \<le> ?c" by simp
  then have "(of_int (2 ^ nat (bitlen ?c - 1)) :: rat) \<le> of_int ?c"
    by (simp only: of_int_le_iff)
  moreover have "of_int ?c < ?t" by linarith
  ultimately have lt: "2 ^ nat (bitlen ?c - 1) < ?t" by simp
  have xpos: "0 < \<bar>x\<bar>" using assms by simp
  from lt xpos have "2 ^ nat (bitlen ?c - 1) * \<bar>x\<bar> < 1"
    by (simp add: field_simps)
  then have "\<bar>x\<bar> < 1 / 2 ^ nat (bitlen ?c - 1)"
    by (simp add: field_simps)
  moreover have "(2::rat) powi (- bitlen ?c + 1) = 1 / 2 ^ nat (bitlen ?c - 1)"
  proof -
    have "- bitlen ?c + 1 = - (bitlen ?c - 1)" by simp
    then show ?thesis using b1 by (simp only: power_int_minus_divide) (simp add: powi_nat)
  qed
  ultimately show ?thesis using False by (simp add: expo_def)
qed

lemma powi_less_cancel:
  assumes "(2::rat) powi m < 2 powi n"
  shows "m < n"
proof (rule ccontr)
  assume "\<not> m < n"
  then have "n \<le> m" by simp
  then have "(2::rat) powi n \<le> 2 powi m" by (rule power_int_increasing) simp
  with assms show False by simp
qed

lemma expo_unique:
  assumes "2 powi e \<le> \<bar>x\<bar>" and "\<bar>x\<bar> < 2 powi (e + 1)"
  shows "expo x = e"
proof -
  have pos: "(0::rat) < 2 powi e" by simp
  with assms(1) have "0 < \<bar>x\<bar>" by linarith
  then have nz: "x \<noteq> 0" by simp
  from expo_lower [OF nz] assms(2) have "(2::rat) powi expo x < 2 powi (e + 1)" by linarith
  then have "expo x < e + 1" by (rule powi_less_cancel)
  moreover from expo_upper [OF nz] assms(1) have "(2::rat) powi e < 2 powi (expo x + 1)" by linarith
  then have "e < expo x + 1" by (rule powi_less_cancel)
  ultimately show ?thesis by simp
qed

lemma is_integer_of_int: "is_integer (of_int k)"
  by (simp add: is_integer_def)

lemma is_integerE:
  assumes "is_integer x"
  obtains k where "x = of_int k"
  using assms unfolding is_integer_def by metis

lemma round_even_int: "round_even (of_int k) = k"
  by (simp add: round_even_def)

lemma round_even_nonneg: "0 \<le> r \<Longrightarrow> 0 \<le> round_even r"
proof -
  assume "0 \<le> r"
  then have "0 \<le> \<lfloor>r\<rfloor>" by simp
  then show ?thesis by (simp add: round_even_def Let_def)
qed

lemma round_even_half: "round_even (of_int k + 1 / 2) = (if even k then k else k + 1)"
proof -
  have "\<lfloor>(of_int k :: rat) + 1 / 2\<rfloor> = k" by linarith
  then show ?thesis by (simp add: round_even_def Let_def)
qed

lemma round64_at:
  assumes "2 powi e \<le> \<bar>x\<bar>" and "\<bar>x\<bar> < 2 powi (e + 1)"
  shows "round64 x =
    (let ulp = 2 powi (max e (- 1022) - 52);
         y = of_int (round_even (x / ulp)) * ulp
     in if 2 ^ 1024 \<le> \<bar>y\<bar> then (if 0 < x then PosInf else NegInf) else Fin y)"
proof -
  have "(0::rat) < 2 powi e" by simp
  with assms(1) have "0 < \<bar>x\<bar>" by linarith
  then have "x \<noteq> 0" by simp
  moreover from assms have "expo x = e" by (rule expo_unique)
  ultimately show ?thesis by (simp add: round64_def)
qed

lemma round64_dyadic:
  assumes m: "\<bar>m\<bar> < 2 ^ 53" and j: "- 1074 \<le> j" "j \<le> 971"
  shows "round64 (of_int m * 2 powi j) = Fin (of_int m * 2 powi j)"
proof (cases "m = 0")
  case True
  then show ?thesis by (simp add: round64_def)
next
  case False
  let ?x = "of_int m * (2::rat) powi j"
  have p: "(0::rat) < 2 powi j" by simp
  from False p have nz: "?x \<noteq> 0" by simp
  have absx: "\<bar>?x\<bar> = of_int \<bar>m\<bar> * 2 powi j" by (simp add: abs_mult)
  from m have "(of_int \<bar>m\<bar> :: rat) < of_int (2 ^ 53)" by (simp only: of_int_less_iff)
  then have m': "(of_int \<bar>m\<bar> :: rat) < 2 ^ 53" by simp
  then have "\<bar>?x\<bar> < 2 ^ 53 * 2 powi j"
    unfolding absx using p by (simp only: mult_strict_right_mono)
  also have "\<dots> = 2 powi (53 + j)" by (simp add: power_int_add)
  finally have ub: "\<bar>?x\<bar> < 2 powi (53 + j)" .
  from expo_lower [OF nz] ub have "(2::rat) powi expo ?x < 2 powi (53 + j)" by linarith
  then have "expo ?x < 53 + j" by (rule powi_less_cancel)
  with j have k: "max (expo ?x) (- 1022) - 52 \<le> j" by simp
  let ?k = "max (expo ?x) (- 1022) - 52"
  have "?x / 2 powi ?k = of_int m * 2 powi (j - ?k)"
    by (simp add: power_int_diff)
  also have "\<dots> = of_int m * 2 ^ nat (j - ?k)" using k by (simp add: powi_nat)
  also have "\<dots> = of_int (m * 2 ^ nat (j - ?k))" by simp
  finally have q: "?x / 2 powi ?k = of_int (m * 2 ^ nat (j - ?k))" .
  have y: "of_int (round_even (?x / 2 powi ?k)) * 2 powi ?k = ?x"
  proof -
    have "of_int (round_even (?x / 2 powi ?k)) * (2::rat) powi ?k = (?x / 2 powi ?k) * 2 powi ?k"
      unfolding q round_even_int ..
    then show ?thesis by simp
  qed
  from j have "(2::rat) powi (53 + j) \<le> 2 powi 1024"
    by (intro power_int_increasing) simp_all
  with ub have "\<bar>?x\<bar> < 2 ^ 1024" by simp
  with nz y show ?thesis by (simp add: round64_def Let_def)
qed

lemma round64_safe_int:
  assumes "\<bar>a\<bar> \<le> 2 ^ 53"
  shows "round64 (of_int a) = Fin (of_int a)"
proof (cases "\<bar>a\<bar> < 2 ^ 53")
  case True
  from round64_dyadic [OF True, of 0] show ?thesis by simp
next
  case False
  with assms have "\<bar>a\<bar> = 2 ^ 53" by simp
  then consider "a = 2 ^ 53" | "a = - (2 ^ 53)" by linarith
  then show ?thesis
  proof cases
    case 1
    from round64_dyadic [of "2 ^ 52" 1] show ?thesis unfolding 1 by simp
  next
    case 2
    from round64_dyadic [of "- (2 ^ 52)" 1] show ?thesis unfolding 2 by simp
  qed
qed

lemma round64_sign:
  assumes "0 \<le> x"
  shows "round64 x = PosInf \<or> (\<exists>y. round64 x = Fin y \<and> 0 \<le> y)"
proof (cases "x = 0")
  case True
  then show ?thesis by (simp add: round64_def)
next
  case False
  with assms have pos: "0 < x" by simp
  let ?ulp = "(2::rat) powi (max (expo x) (- 1022) - 52)"
  have u: "0 < ?ulp" by simp
  with pos have "0 \<le> x / ?ulp" by simp
  then have "0 \<le> round_even (x / ?ulp)" by (rule round_even_nonneg)
  then have "(0::rat) \<le> of_int (round_even (x / ?ulp)) * ?ulp" using u by simp
  with pos show ?thesis by (simp add: round64_def Let_def)
qed

lemma round64_integer:
  assumes "is_integer x" and "round64 x = Fin y"
  shows "is_integer y"
proof -
  from assms(1) obtain a where a: "x = of_int a" by (rule is_integerE)
  show ?thesis
  proof (cases "\<bar>a\<bar> < 2 ^ 53")
    case True
    then have "\<bar>a\<bar> \<le> 2 ^ 53" by simp
    from round64_safe_int [OF this] assms(2) a have "y = of_int a" by simp
    then show ?thesis by (simp only: is_integer_of_int)
  next
    case False
    then have big: "2 ^ 53 \<le> \<bar>a\<bar>" by simp
    then have "(of_int (2 ^ 53) :: rat) \<le> of_int \<bar>a\<bar>" by (simp only: of_int_le_iff)
    then have bigx: "2 ^ 53 \<le> \<bar>x\<bar>" by (simp add: a)
    then have nz: "x \<noteq> 0" by auto
    from expo_upper [OF nz] bigx have "(2::rat) powi 53 < 2 powi (expo x + 1)" by simp
    then have "53 < expo x + 1" by (rule powi_less_cancel)
    then have e: "1 \<le> max (expo x) (- 1022) - 52" by simp
    let ?k = "max (expo x) (- 1022) - 52"
    from e have ulp: "(2::rat) powi ?k = of_int (2 ^ nat ?k)" by (simp add: powi_nat)
    from assms(2) nz have "y = of_int (round_even (x / 2 powi ?k)) * 2 powi ?k"
      by (simp add: round64_def Let_def split: if_splits)
    then have "y = of_int (round_even (x / 2 powi ?k) * 2 ^ nat ?k)"
      unfolding ulp by simp
    then show ?thesis by (simp only: is_integer_of_int)
  qed
qed

lemma round_even_le: "r \<le> of_int b \<Longrightarrow> round_even r \<le> b"
proof -
  assume a: "r \<le> of_int b"
  then have f: "\<lfloor>r\<rfloor> \<le> b" by linarith
  show ?thesis
  proof (cases "\<lfloor>r\<rfloor> = b")
    case True
    with a have "r - of_int \<lfloor>r\<rfloor> \<le> 0" by simp
    then show ?thesis using True by (simp add: round_even_def Let_def)
  next
    case False
    with f have "\<lfloor>r\<rfloor> + 1 \<le> b" by simp
    then show ?thesis by (simp add: round_even_def Let_def)
  qed
qed

lemma round_even_ge: "of_int a \<le> r \<Longrightarrow> a \<le> round_even r"
proof -
  assume "of_int a \<le> r"
  then have "a \<le> \<lfloor>r\<rfloor>" by (simp add: le_floor_iff)
  then show ?thesis by (simp add: round_even_def Let_def)
qed

lemma round64_finite:
  assumes lo: "2 powi e \<le> \<bar>x\<bar>" and hi: "\<bar>x\<bar> < 2 powi (e + 1)"
    and e: "- 1022 \<le> e" "e \<le> 1022"
  shows "round64 x = Fin (of_int (round_even (x / 2 powi (e - 52))) * 2 powi (e - 52))"
proof -
  let ?ulp = "(2::rat) powi (e - 52)"
  let ?m = "round_even (x / ?ulp)"
  have u: "0 < ?ulp" by simp
  have "(0::rat) < 2 powi e" by simp
  with lo have "0 < \<bar>x\<bar>" by linarith
  then have nz: "x \<noteq> 0" by simp
  from lo hi have ex: "expo x = e" by (rule expo_unique)
  have scale: "(2::rat) powi (e + 1) / ?ulp = 2 ^ 53"
  proof -
    have "(2::rat) powi (e + 1) / ?ulp = 2 powi (e + 1 - (e - 52))"
      by (rule power_int_diff [symmetric]) simp
    also have "\<dots> = 2 ^ 53" by simp
    finally show ?thesis .
  qed
  from hi have b: "x \<le> 2 powi (e + 1)" "- (2 powi (e + 1)) \<le> x" by linarith+
  from u have u0: "0 \<le> ?ulp" by simp
  from b(1) u0 have "x / ?ulp \<le> 2 powi (e + 1) / ?ulp" by (rule divide_right_mono)
  moreover from b(2) u0 have "- (2 powi (e + 1)) / ?ulp \<le> x / ?ulp" by (rule divide_right_mono)
  then have "- (2 powi (e + 1) / ?ulp) \<le> x / ?ulp" by simp
  ultimately have q: "x / ?ulp \<le> of_int (2 ^ 53)" "of_int (- (2 ^ 53)) \<le> x / ?ulp"
    unfolding scale by simp_all
  from q(1) have "?m \<le> 2 ^ 53" by (rule round_even_le)
  moreover from q(2) have "- (2 ^ 53) \<le> ?m" by (rule round_even_ge)
  ultimately have "\<bar>?m\<bar> \<le> 2 ^ 53" by simp
  then have "(of_int \<bar>?m\<bar> :: rat) \<le> of_int (2 ^ 53)" by (simp only: of_int_le_iff)
  then have "\<bar>of_int ?m :: rat\<bar> \<le> 2 ^ 53" by simp
  then have "\<bar>of_int ?m * ?ulp\<bar> \<le> 2 ^ 53 * ?ulp"
    using u by (simp add: abs_mult)
  also have "2 ^ 53 * ?ulp = 2 powi (e + 1)"
    using scale u by (simp add: field_simps)
  also have "\<dots> \<le> 2 powi 1023" using e by (intro power_int_increasing) simp_all
  also have "\<dots> < 2 powi 1024" by (intro power_int_strict_increasing) simp_all
  finally have "\<bar>of_int ?m * ?ulp\<bar> < 2 ^ 1024" by simp
  with nz ex e show ?thesis by (simp add: round64_def Let_def max_def)
qed

lemma round64_big: "round64 9007199254740993 = Fin 9007199254740992"
proof -
  have "round64 9007199254740993
          = Fin (of_int (round_even (9007199254740993 / 2 powi (53 - 52))) * 2 powi (53 - 52))"
    by (rule round64_finite) simp_all
  moreover have "(9007199254740993::rat) / 2 powi (53 - 52) = of_int 4503599627370496 + 1 / 2"
    by simp
  ultimately show ?thesis by (simp only: round_even_half) simp
qed

lemma round64_tie_up: "round64 9007199254740995 = Fin 9007199254740996"
proof -
  have "round64 9007199254740995
          = Fin (of_int (round_even (9007199254740995 / 2 powi (53 - 52))) * 2 powi (53 - 52))"
    by (rule round64_finite) simp_all
  moreover have "(9007199254740995::rat) / 2 powi (53 - 52) = of_int 4503599627370497 + 1 / 2"
    by simp
  ultimately show ?thesis by (simp only: round_even_half) simp
qed

lemma safe_intE:
  assumes "safe_int x"
  obtains a where "x = of_int a" and "\<bar>a\<bar> \<le> 2 ^ 53"
proof -
  from assms have "is_integer x" and b: "\<bar>x\<bar> \<le> 9007199254740992" by (simp_all add: safe_int_def)
  then obtain a where a: "x = of_int a" by (auto elim: is_integerE)
  with b have "\<bar>of_int a :: rat\<bar> \<le> of_int 9007199254740992" by simp
  then have "(of_int \<bar>a\<bar> :: rat) \<le> of_int 9007199254740992" by simp
  then have "\<bar>a\<bar> \<le> 9007199254740992" by (simp only: of_int_le_iff)
  with a that show ?thesis by simp
qed

lemma round64_safe: "safe_int x \<Longrightarrow> round64 x = Fin x"
  by (erule safe_intE) (simp add: round64_safe_int)

lemma safe_int_numeral: "numeral n \<le> (9007199254740992::rat) \<Longrightarrow> safe_int (numeral n)"
  by (simp add: safe_int_def is_integer_def)

lemma is_integer_add: "is_integer a \<Longrightarrow> is_integer b \<Longrightarrow> is_integer (a + b)"
  by (elim is_integerE) (simp add: is_integer_of_int flip: of_int_add)

lemma is_integer_diff: "is_integer a \<Longrightarrow> is_integer b \<Longrightarrow> is_integer (a - b)"
  by (elim is_integerE) (simp add: is_integer_of_int flip: of_int_diff)

lemma js_add_safe:
  assumes "safe_int a" and "safe_int b" and "\<bar>a + b\<bar> \<le> 9007199254740992"
  shows "js_add (Fin a) (Fin b) = Fin (a + b)"
proof -
  from assms have "safe_int (a + b)" by (simp add: safe_int_def is_integer_add)
  then show ?thesis by (simp add: round64_safe)
qed

lemma js_sub_Fin: "js_sub (Fin a) (Fin b) = round64 (a - b)"
  by (simp add: js_sub_def)

lemma js_sub_safe:
  assumes "safe_int a" and "safe_int b" and "\<bar>a - b\<bar> \<le> 9007199254740992"
  shows "js_sub (Fin a) (Fin b) = Fin (a - b)"
proof -
  from assms have "safe_int (a - b)" by (simp add: safe_int_def is_integer_diff)
  then show ?thesis by (simp add: js_sub_Fin round64_safe)
qed

lemma js_max_0_round64: "0 \<le> x \<Longrightarrow> js_max (Fin 0) (round64 x) = round64 x"
  using round64_sign [of x] by (auto simp: js_max_def)

text \<open>\<^verbatim>\<open>Math.max(0, previousStock - quantity)\<close> is \<^verbatim>\<open>previousStock - quantity\<close> whenever
  the quantity passed the validation and the rejection test
  \<^verbatim>\<open>previousStock < quantity\<close> is false.\<close>

lemma clamp_identity:
  assumes "\<not> js_le q (Fin 0)" and "\<not> js_lt p q"
  shows "js_max (Fin 0) (js_sub p q) = js_sub p q"
proof (cases p)
  case (Fin a)
  show ?thesis
  proof (cases q)
    case (Fin b)
    with assms \<open>p = Fin a\<close> have "0 \<le> a - b" by simp
    then show ?thesis unfolding \<open>p = Fin a\<close> \<open>q = Fin b\<close> js_sub_Fin
      by (rule js_max_0_round64)
  qed (use assms Fin in \<open>simp_all add: js_sub_def js_max_def js_le_def\<close>)
next
  case PosInf
  then show ?thesis by (cases q) (simp_all add: js_sub_def js_max_def)
next
  case NegInf
  with assms show ?thesis by (cases q) (simp_all add: js_sub_def js_max_def js_le_def)
next
  case NaN
  then show ?thesis by (simp add: js_sub_def js_max_def)
qed

subsection \<open>Movement registration\<close>

text \<open>The shape of the two outcomes of \<open>registerMovement\<close>: a failure leaves the store as it
  was; a success comes from a request that passed every check and stores the movement and
  the updated product.\<close>

lemma registerMovement_fail: "registerMovement e s req = (Inl err, s') \<Longrightarrow> s' = s"
  by (auto simp: registerMovement_def Let_def split: option.splits jsval.splits if_splits)

lemma registerMovement_ok:
  assumes "registerMovement e s req = (Inr r, s')"
  shows "\<exists>uid u pid P q.
           auth req = Some uid \<and> users s uid = Some u \<and> req_productId req = Some pid
           \<and> pid \<noteq> [] \<and> products s pid = Some P \<and> req_quantity req = JNum q
           \<and> \<not> js_le q (Fin 0)
           \<and> (req_type req = JStr ''entrada''
               \<or> req_type req = JStr ''salida'' \<and> \<not> js_lt (stock P) q)
           \<and> productId (res_movement r) = pid \<and> id_m (res_movement r) = movementId e
           \<and> quantity (res_movement r) = q \<and> previousStock (res_movement r) = stock P
           \<and> newStock (res_movement r)
               = (if req_type req = JStr ''entrada'' then js_add (stock P) q
                  else js_max (Fin 0) (js_sub (stock P) q))
           \<and> res_updatedProduct r
               = P \<lparr> stock := newStock (res_movement r), updatedAt := now_updatedAt e \<rparr>
           \<and> s' = s \<lparr> products := (products s)(pid \<mapsto> res_updatedProduct r),
                       movements := (movements s)(movement_key pid (movementId e)
                                                  \<mapsto> res_movement r) \<rparr>"
  using assms
  by (auto simp: registerMovement_def Let_def split: option.splits jsval.splits if_splits)

lemma updateProductStock_movements:
  "movements (snd (updateProductStock now s req)) = movements s"
  by (simp add: updateProductStock_def Let_def split: option.splits jsval.splits)

lemma round64_14: "round64 14 = Fin 14"
  using round64_safe [of 14] by (simp add: safe_int_numeral)

lemma round64_29: "round64 29 = Fin 29"
  using round64_safe [of 29] by (simp add: safe_int_numeral)

lemma round64_34: "round64 34 = Fin 34"
  using round64_safe [of 34] by (simp add: safe_int_numeral)


lemma round64_49_2: "round64 (49 / 2) = Fin (49 / 2)"
  using round64_dyadic [of 49 "- 1"] by simp

lemmas sample_defs =
  registerMovement_def updateProductStock_def Let_def js_le_def js_max_def js_sub_def
  request_def patch_def store_of_def store_after_def registered_def cola_def env0_def
  movement_key_def admin_def

lemma run_salida10:
  "registerMovement env0 store0 (request ''salida'' (Fin 10))
     = (Inr \<lparr> res_movement = salida10, res_updatedProduct = cocaCola14,
               res_message = ''Salida registrada exitosamente'' \<rparr>, store1)"
  by (simp add: sample_defs round64_14 store0_def cocaCola_def salida10_def cocaCola14_def
      store1_def)

lemma store0_products: "products store0 pid = Some P \<longleftrightarrow> pid = ''1'' \<and> P = cocaCola"
  by (auto simp: store0_def store_of_def)

text \<open>
  C1, as the specification states it, fails: the new stock of an accepted salida is the
  binary64 difference, which is not always \<open>P.stock - q\<close>. On a stock of \<open>2\<^sup>5\<^sup>3 + 2\<close> a salida
  of 1 is accepted and leaves \<open>2\<^sup>5\<^sup>3\<close>, where \<open>P.stock - q\<close> is \<open>2\<^sup>5\<^sup>3 + 1\<close>.
\<close>

theorem salida_difference_rounded:
  "registerMovement env0 (store_of (cola (Fin 9007199254740994) 1705276800000) Map.empty)
       (request ''salida'' (Fin 1))
     = (Inr \<lparr> res_movement = salida_edge,
               res_updatedProduct = cola (Fin 9007199254740992) 1700000000001,
               res_message = ''Salida registrada exitosamente'' \<rparr>, store_after salida_edge)
   \<and> previousStock salida_edge = Fin 9007199254740994 \<and> quantity salida_edge = Fin 1
   \<and> newStock salida_edge = Fin 9007199254740992
   \<and> (9007199254740994::rat) - 1 = 9007199254740993"
  by (simp add: sample_defs round64_big salida_edge_def)

text \<open>
  C1, amended. Take a salida request by a known user on an existing product \<open>P\<close>, with a
  quantity \<open>q\<close> that passed the validation. If the test \<^verbatim>\<open>previousStock < quantity\<close> is
  false the request succeeds: the new stock is the binary64 difference of the stock and
  \<open>q\<close>, and the movement record and the updated product are both stored. If the test is
  true the request fails with \<open>InsufficientStock\<close> carrying the previous stock, and the store
  is unchanged. On finite numbers the test is \<open>stock < q\<close>, the difference is the exact
  difference rounded to binary64, and it is the exact difference when stock and quantity are
  integers of magnitude at most \<open>2\<^sup>5\<^sup>3\<close>.
\<close>

theorem salida_accept_or_reject:
  assumes "auth req = Some uid" and "users s uid = Some u"
    and "req_productId req = Some pid" and "pid \<noteq> []" and "products s pid = Some P"
    and "req_type req = JStr ''salida''" and "req_quantity req = JNum q"
    and "\<not> js_le q (Fin 0)"
  shows "(\<not> js_lt (stock P) q \<longrightarrow>
           registerMovement e s req =
             (let mv = \<lparr> id_m = movementId e, productId = pid, productName = name_p P,
                         type_m = ''salida'', quantity = q,
                         reason = (case req_reason req of None \<Rightarrow> [] | Some r \<Rightarrow> r),
                         userId = uid, userName = name_u u,
                         previousStock = stock P, newStock = js_sub (stock P) q,
                         createdAt = now_createdAt e \<rparr>;
                  P' = P \<lparr> stock := js_sub (stock P) q, updatedAt := now_updatedAt e \<rparr>
              in (Inr \<lparr> res_movement = mv, res_updatedProduct = P',
                        res_message = ''Salida registrada exitosamente'' \<rparr>,
                  s \<lparr> products := (products s)(pid \<mapsto> P'),
                      movements := (movements s)(movement_key pid (movementId e) \<mapsto> mv) \<rparr>)))
       \<and> (js_lt (stock P) q \<longrightarrow>
           registerMovement e s req = (Inl (InsufficientStock (stock P)), s))
       \<and> (\<forall>a b. stock P = Fin a \<and> q = Fin b \<longrightarrow>
             (js_lt (stock P) q \<longleftrightarrow> a < b)
           \<and> js_sub (stock P) q = round64 (a - b)
           \<and> (safe_int a \<and> safe_int b \<and> b \<le> a \<longrightarrow> js_sub (stock P) q = Fin (a - b)))"
proof -
  have acc: "registerMovement e s req =
             (let mv = \<lparr> id_m = movementId e, productId = pid, productName = name_p P,
                         type_m = ''salida'', quantity = q,
                         reason = (case req_reason req of None \<Rightarrow> [] | Some r \<Rightarrow> r),
                         userId = uid, userName = name_u u,
                         previousStock = stock P, newStock = js_sub (stock P) q,
                         createdAt = now_createdAt e \<rparr>;
                  P' = P \<lparr> stock := js_sub (stock P) q, updatedAt := now_updatedAt e \<rparr>
              in (Inr \<lparr> res_movement = mv, res_updatedProduct = P',
                        res_message = ''Salida registrada exitosamente'' \<rparr>,
                  s \<lparr> products := (products s)(pid \<mapsto> P'),
                      movements := (movements s)(movement_key pid (movementId e) \<mapsto> mv) \<rparr>))"
    if ok: "\<not> js_lt (stock P) q"
  proof -
    from assms(8) ok have "js_max (Fin 0) (js_sub (stock P) q) = js_sub (stock P) q"
      by (rule clamp_identity)
    with assms ok show ?thesis
      by (simp add: registerMovement_def Let_def)
  qed
  have rej: "registerMovement e s req = (Inl (InsufficientStock (stock P)), s)"
    if "js_lt (stock P) q"
    using assms that by (simp add: registerMovement_def Let_def)
  have fin: "(js_lt (stock P) q \<longleftrightarrow> a < b)
           \<and> js_sub (stock P) q = round64 (a - b)
           \<and> (safe_int a \<and> safe_int b \<and> b \<le> a \<longrightarrow> js_sub (stock P) q = Fin (a - b))"
    if ab: "stock P = Fin a \<and> q = Fin b" for a b
  proof -
    from ab assms(8) have b: "0 < b" by (simp add: js_le_def)
    have "js_sub (Fin a) (Fin b) = Fin (a - b)" if h: "safe_int a \<and> safe_int b \<and> b \<le> a"
    proof -
      from h b have "\<bar>a - b\<bar> \<le> 9007199254740992" unfolding safe_int_def by linarith
      with h show ?thesis by (simp add: js_sub_safe)
    qed
    with ab show ?thesis by (simp add: js_sub_Fin)
  qed
  from acc rej fin show ?thesis by blast
qed

text \<open>The scenario of the specification: on a stock of 24 a salida of 30 is rejected with
  the available stock 24, and a salida of 10 leaves 14.\<close>

theorem salida_accept_or_reject_witness:
  "auth (request ''salida'' (Fin 30)) = Some ''u1'' \<and> users store0 ''u1'' = Some admin
   \<and> req_productId (request ''salida'' (Fin 30)) = Some ''1'' \<and> ''1'' \<noteq> []
   \<and> products store0 ''1'' = Some cocaCola
   \<and> req_type (request ''salida'' (Fin 30)) = JStr ''salida''
   \<and> req_quantity (request ''salida'' (Fin 30)) = JNum (Fin 30) \<and> \<not> js_le (Fin 30) (Fin 0)
   \<and> stock cocaCola = Fin 24 \<and> js_lt (stock cocaCola) (Fin 30)
   \<and> registerMovement env0 store0 (request ''salida'' (Fin 30))
       = (Inl (InsufficientStock (Fin 24)), store0)
   \<and> \<not> js_le (Fin 10) (Fin 0) \<and> \<not> js_lt (stock cocaCola) (Fin 10)
   \<and> safe_int 24 \<and> safe_int 10 \<and> (10::rat) \<le> 24
   \<and> js_sub (stock cocaCola) (Fin 10) = Fin 14
   \<and> registerMovement env0 store0 (request ''salida'' (Fin 10))
       = (Inr \<lparr> res_movement = salida10, res_updatedProduct = cocaCola14,
                 res_message = ''Salida registrada exitosamente'' \<rparr>, store1)"
proof -
  have h1: "auth (request ''salida'' q) = Some ''u1''" for q by (simp add: request_def)
  have h2: "users store0 ''u1'' = Some admin" by (simp add: store0_def store_of_def)
  have h3: "req_productId (request ''salida'' q) = Some ''1''" for q by (simp add: request_def)
  have h4: "''1'' \<noteq> []" by simp
  have h5: "products store0 ''1'' = Some cocaCola" by (simp add: store0_def store_of_def)
  have h6: "req_type (request ''salida'' q) = JStr ''salida''" for q by (simp add: request_def)
  have h7: "req_quantity (request ''salida'' q) = JNum q" for q by (simp add: request_def)
  have p30: "\<not> js_le (Fin 30) (Fin 0)" and p10: "\<not> js_le (Fin 10) (Fin 0)"
    by (simp_all add: js_le_def)
  have st: "stock cocaCola = Fin 24" by (simp add: cocaCola_def cola_def)
  have lt: "js_lt (stock cocaCola) (Fin 30)" "\<not> js_lt (stock cocaCola) (Fin 10)"
    by (simp_all add: st)
  have safe: "safe_int 24" "safe_int 10" by (simp_all add: safe_int_numeral)
  note t30 = salida_accept_or_reject [OF h1 h2 h3 h4 h5 h6 h7 p30, of env0]
  note t10 = salida_accept_or_reject [OF h1 h2 h3 h4 h5 h6 h7 p10, of env0]
  from t30 lt(1) have rejected:
    "registerMovement env0 store0 (request ''salida'' (Fin 30))
       = (Inl (InsufficientStock (Fin 24)), store0)"
    by (simp only: st)
  from t10 have "stock cocaCola = Fin 24 \<and> Fin 10 = Fin 10 \<longrightarrow>
      (safe_int 24 \<and> safe_int 10 \<and> (10::rat) \<le> 24
         \<longrightarrow> js_sub (stock cocaCola) (Fin 10) = Fin (24 - 10))"
    by blast
  with st safe have diff: "js_sub (stock cocaCola) (Fin 10) = Fin 14" by simp
  from t10 lt(2) have "registerMovement env0 store0 (request ''salida'' (Fin 10))
       = (let mv = \<lparr> id_m = movementId env0, productId = ''1'', productName = name_p cocaCola,
                         type_m = ''salida'', quantity = Fin 10,
                         reason = (case req_reason (request ''salida'' (Fin 10)) of
                                     None \<Rightarrow> [] | Some r \<Rightarrow> r),
                         userId = ''u1'', userName = name_u admin,
                         previousStock = stock cocaCola,
                         newStock = js_sub (stock cocaCola) (Fin 10),
                         createdAt = now_createdAt env0 \<rparr>;
                  P' = cocaCola \<lparr> stock := js_sub (stock cocaCola) (Fin 10),
                                  updatedAt := now_updatedAt env0 \<rparr>
              in (Inr \<lparr> res_movement = mv, res_updatedProduct = P',
                        res_message = ''Salida registrada exitosamente'' \<rparr>,
                  store0 \<lparr> products := (products store0)(''1'' \<mapsto> P'),
                      movements := (movements store0)(movement_key ''1'' (movementId env0)
                                       \<mapsto> mv) \<rparr>))"
    by blast
  then have accepted:
    "registerMovement env0 store0 (request ''salida'' (Fin 10))
       = (Inr \<lparr> res_movement = salida10, res_updatedProduct = cocaCola14,
                 res_message = ''Salida registrada exitosamente'' \<rparr>, store1)"
    unfolding diff
    by (simp add: Let_def salida10_def cocaCola14_def store1_def store0_def cocaCola_def
        request_def store_of_def store_after_def registered_def cola_def env0_def
        movement_key_def admin_def)
  from rejected accepted diff h1 h2 h3 h5 h6 h7 p30 p10 lt safe st show ?thesis
    by (intro conjI) simp_all
qed

text \<open>
  C6, as the specification states it, fails: the new stock of an entrada is the binary64
  sum, which is not always \<open>P.stock + q\<close>. On a stock of \<open>2\<^sup>5\<^sup>3\<close> an entrada of 1 is registered
  and leaves the stock \<open>2\<^sup>5\<^sup>3\<close>, where \<open>P.stock + q\<close> is \<open>2\<^sup>5\<^sup>3 + 1\<close>.
\<close>

theorem entrada_sum_rounded:
  "registerMovement env0 (store_of (cola (Fin 9007199254740992) 1705276800000) Map.empty)
       (request ''entrada'' (Fin 1))
     = (Inr \<lparr> res_movement = entrada_edge,
               res_updatedProduct = cola (Fin 9007199254740992) 1700000000001,
               res_message = ''Entrada registrada exitosamente'' \<rparr>, store_after entrada_edge)
   \<and> previousStock entrada_edge = Fin 9007199254740992 \<and> quantity entrada_edge = Fin 1
   \<and> newStock entrada_edge = Fin 9007199254740992
   \<and> (9007199254740992::rat) + 1 = 9007199254740993"
  by (simp add: sample_defs round64_big entrada_edge_def)

text \<open>
  C6, amended. An entrada request by a known user on an existing product \<open>P\<close>, with a
  quantity \<open>q\<close> that passed the validation, succeeds: the updated product has the binary64
  sum of the stock and \<open>q\<close> as its stock, the movement record has \<open>previousStock\<close> the old
  stock, \<open>newStock\<close> that sum, type entrada and quantity \<open>q\<close>, and both are stored. On finite
  numbers the sum is the exact sum rounded to binary64, and it is the exact sum when stock,
  quantity and their sum are integers of magnitude at most \<open>2\<^sup>5\<^sup>3\<close>.
\<close>

theorem entrada_adds_quantity:
  assumes "auth req = Some uid" and "users s uid = Some u"
    and "req_productId req = Some pid" and "pid \<noteq> []" and "products s pid = Some P"
    and "req_type req = JStr ''entrada''" and "req_quantity req = JNum q"
    and "\<not> js_le q (Fin 0)"
  shows "registerMovement e s req =
           (let mv = \<lparr> id_m = movementId e, productId = pid, productName = name_p P,
                       type_m = ''entrada'', quantity = q,
                       reason = (case req_reason req of None \<Rightarrow> [] | Some r \<Rightarrow> r),
                       userId = uid, userName = name_u u,
                       previousStock = stock P, newStock = js_add (stock P) q,
                       createdAt = now_createdAt e \<rparr>;
                P' = P \<lparr> stock := js_add (stock P) q, updatedAt := now_updatedAt e \<rparr>
            in (Inr \<lparr> res_movement = mv, res_updatedProduct = P',
                      res_message = ''Entrada registrada exitosamente'' \<rparr>,
                s \<lparr> products := (products s)(pid \<mapsto> P'),
                    movements := (movements s)(movement_key pid (movementId e) \<mapsto> mv) \<rparr>))
       \<and> (\<forall>a b. stock P = Fin a \<and> q = Fin b \<longrightarrow>
             js_add (stock P) q = round64 (a + b)
           \<and> (safe_int a \<and> safe_int b \<and> \<bar>a + b\<bar> \<le> 9007199254740992
                \<longrightarrow> js_add (stock P) q = Fin (a + b)))"
proof -
  from assms have run: "registerMovement e s req =
           (let mv = \<lparr> id_m = movementId e, productId = pid, productName = name_p P,
                       type_m = ''entrada'', quantity = q,
                       reason = (case req_reason req of None \<Rightarrow> [] | Some r \<Rightarrow> r),
                       userId = uid, userName = name_u u,
                       previousStock = stock P, newStock = js_add (stock P) q,
                       createdAt = now_createdAt e \<rparr>;
                P' = P \<lparr> stock := js_add (stock P) q, updatedAt := now_updatedAt e \<rparr>
            in (Inr \<lparr> res_movement = mv, res_updatedProduct = P',
                      res_message = ''Entrada registrada exitosamente'' \<rparr>,
                s \<lparr> products := (products s)(pid \<mapsto> P'),
                    movements := (movements s)(movement_key pid (movementId e) \<mapsto> mv) \<rparr>))"
    by (simp add: registerMovement_def Let_def del: js_add.simps)
  have fin: "js_add (stock P) q = round64 (a + b)
           \<and> (safe_int a \<and> safe_int b \<and> \<bar>a + b\<bar> \<le> 9007199254740992
                \<longrightarrow> js_add (stock P) q = Fin (a + b))"
    if ab: "stock P = Fin a \<and> q = Fin b" for a b
  proof -
    have "js_add (Fin a) (Fin b) = Fin (a + b)"
      if "safe_int a \<and> safe_int b \<and> \<bar>a + b\<bar> \<le> 9007199254740992"
      using that by (intro js_add_safe) simp_all
    moreover have "js_add (Fin a) (Fin b) = round64 (a + b)" by simp
    ultimately show ?thesis using ab by (simp only:) blast
  qed
  from run fin show ?thesis by blast
qed

text \<open>The scenario of the specification: on a stock of 24 an entrada of 10 gives 34.\<close>

theorem entrada_adds_quantity_witness:
  "auth (request ''entrada'' (Fin 10)) = Some ''u1'' \<and> users store0 ''u1'' = Some admin
   \<and> req_productId (request ''entrada'' (Fin 10)) = Some ''1'' \<and> ''1'' \<noteq> []
   \<and> products store0 ''1'' = Some cocaCola
   \<and> req_type (request ''entrada'' (Fin 10)) = JStr ''entrada''
   \<and> req_quantity (request ''entrada'' (Fin 10)) = JNum (Fin 10) \<and> \<not> js_le (Fin 10) (Fin 0)
   \<and> stock cocaCola = Fin 24 \<and> safe_int 24 \<and> safe_int 10
   \<and> \<bar>(24::rat) + 10\<bar> \<le> 9007199254740992
   \<and> js_add (stock cocaCola) (Fin 10) = Fin 34
   \<and> registerMovement env0 store0 (request ''entrada'' (Fin 10))
       = (Inr \<lparr> res_movement = registered ''entrada'' (Fin 10) (Fin 24) (Fin 34),
                 res_updatedProduct = cola (Fin 34) 1700000000001,
                 res_message = ''Entrada registrada exitosamente'' \<rparr>,
          store_after (registered ''entrada'' (Fin 10) (Fin 24) (Fin 34)))"
proof -
  have h1: "auth (request ''entrada'' (Fin 10)) = Some ''u1''" by (simp add: request_def)
  have h2: "users store0 ''u1'' = Some admin" by (simp add: store0_def store_of_def)
  have h3: "req_productId (request ''entrada'' (Fin 10)) = Some ''1''" by (simp add: request_def)
  have h4: "''1'' \<noteq> []" by simp
  have h5: "products store0 ''1'' = Some cocaCola" by (simp add: store0_def store_of_def)
  have h6: "req_type (request ''entrada'' (Fin 10)) = JStr ''entrada''" by (simp add: request_def)
  have h7: "req_quantity (request ''entrada'' (Fin 10)) = JNum (Fin 10)" by (simp add: request_def)
  have h8: "\<not> js_le (Fin 10) (Fin 0)" by (simp add: js_le_def)
  have st: "stock cocaCola = Fin 24" by (simp add: cocaCola_def cola_def)
  have safe: "safe_int 24" "safe_int 10" by (simp_all add: safe_int_numeral)
  note t = entrada_adds_quantity [OF h1 h2 h3 h4 h5 h6 h7 h8, of env0]
  from t have "stock cocaCola = Fin 24 \<and> Fin 10 = Fin 10 \<longrightarrow>
      (safe_int 24 \<and> safe_int 10 \<and> \<bar>(24::rat) + 10\<bar> \<le> 9007199254740992
         \<longrightarrow> js_add (stock cocaCola) (Fin 10) = Fin (24 + 10))"
    by blast
  with st safe have sum: "js_add (stock cocaCola) (Fin 10) = Fin 34" by simp
  from t have "registerMovement env0 store0 (request ''entrada'' (Fin 10))
       = (let mv = \<lparr> id_m = movementId env0, productId = ''1'', productName = name_p cocaCola,
                       type_m = ''entrada'', quantity = Fin 10,
                       reason = (case req_reason (request ''entrada'' (Fin 10)) of
                                   None \<Rightarrow> [] | Some r \<Rightarrow> r),
                       userId = ''u1'', userName = name_u admin,
                       previousStock = stock cocaCola,
                       newStock = js_add (stock cocaCola) (Fin 10),
                       createdAt = now_createdAt env0 \<rparr>;
                P' = cocaCola \<lparr> stock := js_add (stock cocaCola) (Fin 10),
                                updatedAt := now_updatedAt env0 \<rparr>
            in (Inr \<lparr> res_movement = mv, res_updatedProduct = P',
                      res_message = ''Entrada registrada exitosamente'' \<rparr>,
                store0 \<lparr> products := (products store0)(''1'' \<mapsto> P'),
                    movements := (movements store0)(movement_key ''1'' (movementId env0)
                                      \<mapsto> mv) \<rparr>))"
    by blast
  then have run: "registerMovement env0 store0 (request ''entrada'' (Fin 10))
       = (Inr \<lparr> res_movement = registered ''entrada'' (Fin 10) (Fin 24) (Fin 34),
                 res_updatedProduct = cola (Fin 34) 1700000000001,
                 res_message = ''Entrada registrada exitosamente'' \<rparr>,
          store_after (registered ''entrada'' (Fin 10) (Fin 24) (Fin 34)))"
    unfolding sum
    by (simp add: Let_def store0_def cocaCola_def request_def store_of_def store_after_def
        registered_def cola_def env0_def movement_key_def admin_def)
  from run sum h1 h2 h3 h5 h6 h7 h8 st safe show ?thesis
    by (intro conjI) simp_all
qed

text \<open>
  C9, as the specification states it, fails in its last part: the persisted new stock of an
  accepted salida is not always \<open>previousStock - quantity\<close>. On a stock of \<open>2\<^sup>5\<^sup>3 + 4\<close> a salida
  of 1 is accepted and the persisted new stock is \<open>2\<^sup>5\<^sup>3 + 4\<close> again, where
  \<open>previousStock - quantity\<close> is \<open>2\<^sup>5\<^sup>3 + 3\<close>.
\<close>

theorem accepted_salida_rounded:
  "registerMovement env0 (store_of (cola (Fin 9007199254740996) 1705276800000) Map.empty)
       (request ''salida'' (Fin 1))
     = (Inr \<lparr> res_movement = salida_tie,
               res_updatedProduct = cola (Fin 9007199254740996) 1700000000001,
               res_message = ''Salida registrada exitosamente'' \<rparr>, store_after salida_tie)
   \<and> previousStock salida_tie = Fin 9007199254740996 \<and> quantity salida_tie = Fin 1
   \<and> newStock salida_tie = Fin 9007199254740996
   \<and> (9007199254740996::rat) - 1 = 9007199254740995"
  by (simp add: sample_defs round64_tie_up salida_tie_def)

text \<open>
  C9, amended. Whenever a salida is accepted, the test \<^verbatim>\<open>previousStock < quantity\<close> was
  false, the clamp \<^verbatim>\<open>Math.max(0, previousStock - quantity)\<close> is the binary64 difference
  \<^verbatim>\<open>previousStock - quantity\<close> itself, and that difference is the \<open>newStock\<close> of the
  movement and the stock of the stored product. On finite numbers \<open>quantity \<le> previousStock\<close>
  holds and the new stock is the exact difference rounded to binary64; it is the exact
  difference when both are integers of magnitude at most \<open>2\<^sup>5\<^sup>3\<close>.
\<close>

theorem accepted_salida_not_clamped:
  assumes "registerMovement e s req = (Inr r, s')" and "req_type req = JStr ''salida''"
  shows "map_option stock (products s (productId (res_movement r)))
           = Some (previousStock (res_movement r))
       \<and> \<not> js_lt (previousStock (res_movement r)) (quantity (res_movement r))
       \<and> js_max (Fin 0) (js_sub (previousStock (res_movement r)) (quantity (res_movement r)))
           = js_sub (previousStock (res_movement r)) (quantity (res_movement r))
       \<and> newStock (res_movement r)
           = js_sub (previousStock (res_movement r)) (quantity (res_movement r))
       \<and> stock (res_updatedProduct r)
           = js_sub (previousStock (res_movement r)) (quantity (res_movement r))
       \<and> products s' (productId (res_movement r)) = Some (res_updatedProduct r)
       \<and> (\<forall>a b. previousStock (res_movement r) = Fin a \<and> quantity (res_movement r) = Fin b
            \<longrightarrow> b \<le> a \<and> newStock (res_movement r) = round64 (a - b)
              \<and> (safe_int a \<and> safe_int b \<longrightarrow> newStock (res_movement r) = Fin (a - b)))"
proof -
  let ?mv = "res_movement r"
  from registerMovement_ok [OF assms(1)] assms(2) obtain pid P q where
    p: "products s pid = Some P" "\<not> js_le q (Fin 0)" "\<not> js_lt (stock P) q"
       "productId ?mv = pid" "quantity ?mv = q" "previousStock ?mv = stock P"
       "newStock ?mv = js_max (Fin 0) (js_sub (stock P) q)"
       "res_updatedProduct r = P \<lparr> stock := newStock ?mv, updatedAt := now_updatedAt e \<rparr>"
       "s' = s \<lparr> products := (products s)(pid \<mapsto> res_updatedProduct r),
                   movements := (movements s)(movement_key pid (movementId e) \<mapsto> ?mv) \<rparr>"
    by auto
  from p(2,3) have clamp: "js_max (Fin 0) (js_sub (stock P) q) = js_sub (stock P) q"
    by (rule clamp_identity)
  have exact: "b \<le> a \<and> newStock ?mv = round64 (a - b)
            \<and> (safe_int a \<and> safe_int b \<longrightarrow> newStock ?mv = Fin (a - b))"
    if ab: "previousStock ?mv = Fin a \<and> quantity ?mv = Fin b" for a b
  proof -
    from ab p have sa: "stock P = Fin a" and qb: "q = Fin b" by simp_all
    from p(2,3) sa qb have b: "0 < b" "b \<le> a" by (simp_all add: js_le_def)
    from p(7) clamp sa qb have n: "newStock ?mv = round64 (a - b)" by (simp add: js_sub_Fin)
    have "newStock ?mv = Fin (a - b)" if "safe_int a \<and> safe_int b"
    proof -
      from that b have "\<bar>a - b\<bar> \<le> 9007199254740992" unfolding safe_int_def by linarith
      with that have "js_sub (Fin a) (Fin b) = Fin (a - b)" by (simp add: js_sub_safe)
      with n show ?thesis by (simp add: js_sub_Fin)
    qed
    with b n show ?thesis by simp
  qed
  from p clamp have "map_option stock (products s (productId ?mv)) = Some (previousStock ?mv)"
    and "\<not> js_lt (previousStock ?mv) (quantity ?mv)"
    and "js_max (Fin 0) (js_sub (previousStock ?mv) (quantity ?mv))
           = js_sub (previousStock ?mv) (quantity ?mv)"
    and "newStock ?mv = js_sub (previousStock ?mv) (quantity ?mv)"
    and "stock (res_updatedProduct r) = js_sub (previousStock ?mv) (quantity ?mv)"
    and "products s' (productId ?mv) = Some (res_updatedProduct r)"
    by simp_all
  with exact show ?thesis by blast
qed

theorem accepted_salida_not_clamped_witness:
  "registerMovement env0 store0 (request ''salida'' (Fin 10))
     = (Inr \<lparr> res_movement = salida10, res_updatedProduct = cocaCola14,
               res_message = ''Salida registrada exitosamente'' \<rparr>, store1)
   \<and> req_type (request ''salida'' (Fin 10)) = JStr ''salida''
   \<and> previousStock salida10 = Fin 24 \<and> quantity salida10 = Fin 10
   \<and> safe_int 24 \<and> safe_int 10
   \<and> newStock salida10 = Fin 14
   \<and> stock cocaCola14 = newStock salida10
   \<and> products store1 ''1'' = Some cocaCola14"
proof -
  have ty: "req_type (request ''salida'' (Fin 10)) = JStr ''salida''" by (simp add: request_def)
  have vals: "previousStock salida10 = Fin 24" "quantity salida10 = Fin 10"
    "productId salida10 = ''1''"
    by (simp_all add: salida10_def registered_def)
  have safe: "safe_int 24" "safe_int 10" by (simp_all add: safe_int_numeral)
  note t = accepted_salida_not_clamped [OF run_salida10 ty, unfolded movement_result.select_convs]
  from t have n1: "newStock salida10 = js_sub (previousStock salida10) (quantity salida10)"
    by blast
  from t have n2: "stock cocaCola14 = js_sub (previousStock salida10) (quantity salida10)"
    by blast
  from t have n3: "products store1 (productId salida10) = Some cocaCola14"
    by blast
  from t have n4: "previousStock salida10 = Fin 24 \<and> quantity salida10 = Fin 10
        \<longrightarrow> (10::rat) \<le> 24 \<and> newStock salida10 = round64 (24 - 10)
          \<and> (safe_int 24 \<and> safe_int 10 \<longrightarrow> newStock salida10 = Fin (24 - 10))"
    by blast
  from n4 vals safe have "newStock salida10 = Fin 14" by (simp add: round64_14)
  moreover from n1 n2 have "stock cocaCola14 = newStock salida10" by simp
  moreover from n3 vals have "products store1 ''1'' = Some cocaCola14" by simp
  ultimately have "newStock salida10 = Fin 14 \<and> stock cocaCola14 = newStock salida10
      \<and> products store1 ''1'' = Some cocaCola14"
    by blast
  with run_salida10 ty vals safe show ?thesis by simp
qed




subsection \<open>Stock changes and the ledger\<close>

text \<open>
  C4, as the specification states it, fails: the direct stock update changes the stock of a
  product and writes no movement record. On \<open>store0\<close> a direct update by 5 takes product 1
  from 24 to 29 and the movements stay what they were.
\<close>

theorem direct_update_without_movement:
  "products store0 ''1'' = Some cocaCola \<and> stock cocaCola = Fin 24
   \<and> step store0 (UpdateStock 1700000000002 patch5) = store29
   \<and> products store29 ''1'' = Some cocaCola29 \<and> stock cocaCola29 = Fin 29
   \<and> movements store29 = movements store0"
  by (simp add: sample_defs round64_29 patch5_def store0_def store29_def cocaCola29_def
      cocaCola_def)

text \<open>
  C4, amended. A stock change made by a movement registration comes with a stored
  movement record of that product, whose \<open>previousStock\<close> and \<open>newStock\<close> are the stock before
  and after; the direct stock update never writes a movement record.
\<close>

theorem registered_stock_change_has_movement:
  "(map_option stock (products (step s (Register e req)) pid) \<noteq> map_option stock (products s pid)
     \<longrightarrow> (\<exists>mv. movements (step s (Register e req)) (movement_key pid (movementId e)) = Some mv
            \<and> productId mv = pid \<and> id_m mv = movementId e
            \<and> map_option stock (products s pid) = Some (previousStock mv)
            \<and> map_option stock (products (step s (Register e req)) pid) = Some (newStock mv)))
   \<and> movements (step s (UpdateStock now sreq)) = movements s"
proof (intro conjI impI)
  obtain res s' where rm: "registerMovement e s req = (res, s')"
    by (cases "registerMovement e s req")
  assume changed:
    "map_option stock (products (step s (Register e req)) pid) \<noteq> map_option stock (products s pid)"
  show "\<exists>mv. movements (step s (Register e req)) (movement_key pid (movementId e)) = Some mv
            \<and> productId mv = pid \<and> id_m mv = movementId e
            \<and> map_option stock (products s pid) = Some (previousStock mv)
            \<and> map_option stock (products (step s (Register e req)) pid) = Some (newStock mv)"
  proof (cases res)
    case (Inl err)
    with rm have "s' = s" by (simp add: registerMovement_fail)
    with rm changed show ?thesis by simp
  next
    case (Inr r)
    with rm have "registerMovement e s req = (Inr r, s')" by simp
    from registerMovement_ok [OF this] obtain pid' P where
      p: "products s pid' = Some P" "productId (res_movement r) = pid'"
         "id_m (res_movement r) = movementId e" "previousStock (res_movement r) = stock P"
         "res_updatedProduct r
            = P \<lparr> stock := newStock (res_movement r), updatedAt := now_updatedAt e \<rparr>"
         "s' = s \<lparr> products := (products s)(pid' \<mapsto> res_updatedProduct r),
                     movements := (movements s)(movement_key pid' (movementId e)
                                                \<mapsto> res_movement r) \<rparr>"
      by blast
    from changed rm p have "pid = pid'" by (auto split: if_splits)
    with rm p show ?thesis by simp
  qed
next
  show "movements (step s (UpdateStock now sreq)) = movements s"
    by (simp add: updateProductStock_movements)
qed

theorem registered_stock_change_has_movement_witness:
  "step store0 (Register env0 (request ''salida'' (Fin 10))) = store1
   \<and> map_option stock (products store1 ''1'') \<noteq> map_option stock (products store0 ''1'')
   \<and> movements store1 (movement_key ''1'' (movementId env0)) = Some salida10
   \<and> map_option stock (products store0 ''1'') = Some (previousStock salida10)
   \<and> map_option stock (products store1 ''1'') = Some (newStock salida10)
   \<and> movements (step store0 (UpdateStock 1700000000002 patch5)) = movements store0"
proof -
  have run: "step store0 (Register env0 (request ''salida'' (Fin 10))) = store1"
    by (simp add: run_salida10)
  have changed:
    "map_option stock (products store1 ''1'') \<noteq> map_option stock (products store0 ''1'')"
    by (simp add: store1_def store0_def store_after_def store_of_def salida10_def
        registered_def cocaCola_def cola_def)
  have stored: "movements store1 (movement_key ''1'' (movementId env0)) = Some salida10"
    by (simp add: store1_def store_after_def store_of_def movement_key_def env0_def)
  from registered_stock_change_has_movement
         [of store0 env0 "request ''salida'' (Fin 10)" "''1''" 1700000000002 patch5]
  show ?thesis unfolding run using changed stored by auto
qed

subsection \<open>The stock invariant\<close>

text \<open>Rounding gives no NaN; a clamped rounded number is not negative, and is an integer or
  \<open>+\<infinity>\<close> when the number rounded is an integer.\<close>

lemma round64_not_NaN: "round64 x \<noteq> NaN"
  by (simp add: round64_def Let_def)

lemma round64_nonneg: "0 \<le> x \<Longrightarrow> nonneg_number (round64 x)"
  using round64_sign [of x] by (auto simp: nonneg_number_def nonneg_finite_def)

lemma round64_integer_or_inf:
  assumes "0 \<le> x" and "is_integer x"
  shows "integer_or_inf (round64 x)"
proof -
  from round64_sign [OF assms(1)] show ?thesis
  proof
    assume "round64 x = PosInf"
    then show ?thesis by (simp add: integer_or_inf_def)
  next
    assume "\<exists>y. round64 x = Fin y \<and> 0 \<le> y"
    then obtain y where y: "round64 x = Fin y" by blast
    with assms(2) have "is_integer y" by (rule round64_integer)
    with y show ?thesis by (simp add: integer_or_inf_def js_integer_def)
  qed
qed

lemma max0_nonneg: "nonneg_number (js_max (Fin 0) (round64 x))"
  using round64_not_NaN [of x]
  by (cases "round64 x") (simp_all add: js_max_def nonneg_number_def nonneg_finite_def)

lemma max0_integer:
  assumes "is_integer x"
  shows "integer_or_inf (js_max (Fin 0) (round64 x))"
proof (cases "round64 x")
  case (Fin y)
  with assms have "is_integer y" by (rule round64_integer)
  with Fin show ?thesis
    by (simp add: js_max_def integer_or_inf_def js_integer_def is_integer_def)
next
  case NaN
  with round64_not_NaN [of x] show ?thesis by simp
qed (simp_all add: js_max_def integer_or_inf_def js_integer_def is_integer_def)

text \<open>The stock a movement registration writes, from a finite non-negative stock.\<close>

lemma entrada_stock:
  assumes "nonneg_finite p" and "q \<noteq> NaN" and "\<not> js_le q (Fin 0)"
  shows "nonneg_number (js_add p q)"
    and "js_integer p \<Longrightarrow> js_integer q \<Longrightarrow> integer_or_inf (js_add p q)"
proof -
  from assms(1) obtain a where p: "p = Fin a" and a: "0 \<le> a"
    by (cases p) (simp_all add: nonneg_finite_def)
  show "nonneg_number (js_add p q)"
  proof (cases q)
    case (Fin b)
    with assms(3) a have "0 \<le> a + b" by (simp add: js_le_def)
    with p Fin show ?thesis by (simp add: round64_nonneg)
  qed (use assms p in \<open>simp_all add: nonneg_number_def js_le_def\<close>)
  show "integer_or_inf (js_add p q)" if "js_integer p" "js_integer q"
  proof -
    from that(2) obtain b where q: "q = Fin b" and ib: "is_integer b"
      by (cases q) (simp_all add: js_integer_def)
    from that(1) p have ia: "is_integer a" by (simp add: js_integer_def)
    from assms(3) a q have "0 \<le> a + b" by (simp add: js_le_def)
    moreover from ia ib have "is_integer (a + b)" by (rule is_integer_add)
    ultimately show ?thesis unfolding p q by (simp add: round64_integer_or_inf)
  qed
qed

lemma salida_stock:
  assumes "nonneg_finite p" and "q \<noteq> NaN" and "\<not> js_lt p q"
  shows "nonneg_number (js_max (Fin 0) (js_sub p q))"
    and "js_integer p \<Longrightarrow> js_integer q
         \<Longrightarrow> integer_or_inf (js_max (Fin 0) (js_sub p q))"
proof -
  from assms(1) obtain a where p: "p = Fin a" and a: "0 \<le> a"
    by (cases p) (simp_all add: nonneg_finite_def)
  show "nonneg_number (js_max (Fin 0) (js_sub p q))"
  proof (cases q)
    case (Fin b)
    with p show ?thesis by (simp add: js_sub_Fin max0_nonneg)
  qed (use assms p in \<open>simp_all add: js_sub_def js_max_def nonneg_number_def
        nonneg_finite_def\<close>)
  show "integer_or_inf (js_max (Fin 0) (js_sub p q))" if "js_integer p" "js_integer q"
  proof -
    from that(2) obtain b where q: "q = Fin b" and ib: "is_integer b"
      by (cases q) (simp_all add: js_integer_def)
    from that(1) p have ia: "is_integer a" by (simp add: js_integer_def)
    from ia ib have "is_integer (a - b)" by (rule is_integer_diff)
    then show ?thesis unfolding p q js_sub_Fin by (rule max0_integer)
  qed
qed

lemma update_stock:
  assumes "nonneg_finite p" and "q \<noteq> NaN"
  shows "nonneg_number (js_max (Fin 0) (js_add p q))"
    and "js_integer p \<Longrightarrow> js_integer q
         \<Longrightarrow> integer_or_inf (js_max (Fin 0) (js_add p q))"
proof -
  from assms(1) obtain a where p: "p = Fin a" and a: "0 \<le> a"
    by (cases p) (simp_all add: nonneg_finite_def)
  show "nonneg_number (js_max (Fin 0) (js_add p q))"
  proof (cases q)
    case (Fin b)
    with p show ?thesis by (simp add: max0_nonneg)
  qed (use assms p in \<open>simp_all add: js_max_def nonneg_number_def nonneg_finite_def\<close>)
  show "integer_or_inf (js_max (Fin 0) (js_add p q))" if "js_integer p" "js_integer q"
  proof -
    from that(2) obtain b where q: "q = Fin b" and ib: "is_integer b"
      by (cases q) (simp_all add: js_integer_def)
    from that(1) p have ia: "is_integer a" by (simp add: js_integer_def)
    from ia ib have "is_integer (a + b)" by (rule is_integer_add)
    then have "integer_or_inf (js_max (Fin 0) (round64 (a + b)))" by (rule max0_integer)
    then show ?thesis unfolding p q by simp
  qed
qed

lemma nonneg_finite_number: "nonneg_finite n \<Longrightarrow> nonneg_number n"
  by (simp add: nonneg_number_def)

lemma js_integer_or_inf: "js_integer n \<Longrightarrow> integer_or_inf n"
  by (simp add: integer_or_inf_def)

lemma stock_all_mono: "(\<And>n. Q n \<Longrightarrow> R n) \<Longrightarrow> stock_all Q s \<Longrightarrow> stock_all R s"
  by (auto simp: stock_all_def)

lemma stock_all_update:
  assumes "stock_all Q s" and "Q n"
  shows "stock_all Q (s \<lparr> products := (products s)(pid \<mapsto> P \<lparr> stock := n, updatedAt := t \<rparr>),
                         movements := ms \<rparr>)"
    and "stock_all Q (s \<lparr> products := (products s)(pid \<mapsto> P \<lparr> stock := n, updatedAt := t \<rparr>) \<rparr>)"
  using assms by (auto simp: stock_all_def)

lemma register_stock:
  assumes fin: "stock_all nonneg_finite s" and json: "json_quantity (req_quantity req)"
  shows "stock_all nonneg_number (snd (registerMovement e s req))"
    and "stock_all js_integer s \<Longrightarrow> integral_quantity (req_quantity req)
         \<Longrightarrow> stock_all integer_or_inf (snd (registerMovement e s req))"
proof -
  obtain res s' where rm: "registerMovement e s req = (res, s')"
    by (cases "registerMovement e s req")
  from fin have nn: "stock_all nonneg_number s"
    by (rule stock_all_mono [rotated]) (rule nonneg_finite_number)
  have io: "stock_all integer_or_inf s" if "stock_all js_integer s"
    using that by (rule stock_all_mono [rotated]) (rule js_integer_or_inf)
  show "stock_all nonneg_number (snd (registerMovement e s req))"
  proof (cases res)
    case (Inl err)
    with rm have "s' = s" by (simp add: registerMovement_fail)
    with rm nn show ?thesis by simp
  next
    case (Inr r)
    with rm have "registerMovement e s req = (Inr r, s')" by simp
    from registerMovement_ok [OF this] obtain pid P q where
      p: "products s pid = Some P" "req_quantity req = JNum q" "\<not> js_le q (Fin 0)"
         "req_type req = JStr ''entrada'' \<or> req_type req = JStr ''salida'' \<and> \<not> js_lt (stock P) q"
         "newStock (res_movement r)
               = (if req_type req = JStr ''entrada'' then js_add (stock P) q
                  else js_max (Fin 0) (js_sub (stock P) q))"
         "res_updatedProduct r
            = P \<lparr> stock := newStock (res_movement r), updatedAt := now_updatedAt e \<rparr>"
         "s' = s \<lparr> products := (products s)(pid \<mapsto> res_updatedProduct r),
                     movements := (movements s)(movement_key pid (movementId e)
                                                \<mapsto> res_movement r) \<rparr>"
      by blast
    from fin p(1) have sp: "nonneg_finite (stock P)" by (simp add: stock_all_def)
    from json p(2) have qn: "q \<noteq> NaN" by (simp add: json_quantity_def)
    from p(4) have "nonneg_number (newStock (res_movement r))"
    proof
      assume "req_type req = JStr ''entrada''"
      with p(5) entrada_stock(1) [OF sp qn p(3)] show ?thesis by simp
    next
      assume "req_type req = JStr ''salida'' \<and> \<not> js_lt (stock P) q"
      with p(5) salida_stock(1) [OF sp qn] show ?thesis by simp
    qed
    with nn have "stock_all nonneg_number s'" unfolding p(7) p(6) by (rule stock_all_update(1))
    with rm show ?thesis by simp
  qed
  show "stock_all integer_or_inf (snd (registerMovement e s req))"
    if int: "stock_all js_integer s" and iq: "integral_quantity (req_quantity req)"
  proof (cases res)
    case (Inl err)
    with rm have "s' = s" by (simp add: registerMovement_fail)
    with rm io [OF int] show ?thesis by simp
  next
    case (Inr r)
    with rm have "registerMovement e s req = (Inr r, s')" by simp
    from registerMovement_ok [OF this] obtain pid P q where
      p: "products s pid = Some P" "req_quantity req = JNum q" "\<not> js_le q (Fin 0)"
         "req_type req = JStr ''entrada'' \<or> req_type req = JStr ''salida'' \<and> \<not> js_lt (stock P) q"
         "newStock (res_movement r)
               = (if req_type req = JStr ''entrada'' then js_add (stock P) q
                  else js_max (Fin 0) (js_sub (stock P) q))"
         "res_updatedProduct r
            = P \<lparr> stock := newStock (res_movement r), updatedAt := now_updatedAt e \<rparr>"
         "s' = s \<lparr> products := (products s)(pid \<mapsto> res_updatedProduct r),
                     movements := (movements s)(movement_key pid (movementId e)
                                                \<mapsto> res_movement r) \<rparr>"
      by blast
    from fin p(1) have sp: "nonneg_finite (stock P)" by (simp add: stock_all_def)
    from int p(1) have ip: "js_integer (stock P)" by (simp add: stock_all_def)
    from json p(2) have qn: "q \<noteq> NaN" by (simp add: json_quantity_def)
    from iq p(2) have iq': "js_integer q" by (simp add: integral_quantity_def)
    from p(4) have "integer_or_inf (newStock (res_movement r))"
    proof
      assume "req_type req = JStr ''entrada''"
      with p(5) entrada_stock(2) [OF sp qn p(3) ip iq'] show ?thesis by simp
    next
      assume "req_type req = JStr ''salida'' \<and> \<not> js_lt (stock P) q"
      with p(5) salida_stock(2) [OF sp qn _ ip iq'] show ?thesis by simp
    qed
    with io [OF int] have "stock_all integer_or_inf s'"
      unfolding p(7) p(6) by (rule stock_all_update(1))
    with rm show ?thesis by simp
  qed
qed

lemma update_stock_all:
  assumes fin: "stock_all nonneg_finite s" and json: "json_quantity (sr_quantity req)"
  shows "stock_all nonneg_number (snd (updateProductStock now s req))"
    and "stock_all js_integer s \<Longrightarrow> integral_quantity (sr_quantity req)
         \<Longrightarrow> stock_all integer_or_inf (snd (updateProductStock now s req))"
proof -
  from fin have nn: "stock_all nonneg_number s"
    by (rule stock_all_mono [rotated]) (rule nonneg_finite_number)
  have io: "stock_all integer_or_inf s" if "stock_all js_integer s"
    using that by (rule stock_all_mono [rotated]) (rule js_integer_or_inf)
  consider (same) "snd (updateProductStock now s req) = s"
    | (upd) q P where "sr_quantity req = JNum q" "products s (sr_id req) = Some P"
        "snd (updateProductStock now s req)
           = s \<lparr> products := (products s)(sr_id req \<mapsto>
                   P \<lparr> stock := js_max (Fin 0) (js_add (stock P) q), updatedAt := now \<rparr>) \<rparr>"
  proof (cases "sr_auth req")
    case None
    then have "snd (updateProductStock now s req) = s" by (simp add: updateProductStock_def)
    then show ?thesis by (rule same)
  next
    case (Some uid)
    show ?thesis
    proof (cases "\<exists>q. sr_quantity req = JNum q")
      case False
      with Some have "snd (updateProductStock now s req) = s"
        by (cases "sr_quantity req") (simp_all add: updateProductStock_def)
      then show ?thesis by (rule same)
    next
      case True
      then obtain q where q: "sr_quantity req = JNum q" by blast
      show ?thesis
      proof (cases "products s (sr_id req)")
        case None
        with Some q have "snd (updateProductStock now s req) = s"
          by (simp add: updateProductStock_def)
        then show ?thesis by (rule same)
      next
        case (Some P)
        with \<open>sr_auth req = Some uid\<close> q have "snd (updateProductStock now s req)
           = s \<lparr> products := (products s)(sr_id req \<mapsto>
                   P \<lparr> stock := js_max (Fin 0) (js_add (stock P) q), updatedAt := now \<rparr>) \<rparr>"
          by (simp add: updateProductStock_def Let_def)
        with q Some show ?thesis by (rule upd)
      qed
    qed
  qed
  note cases = this
  show "stock_all nonneg_number (snd (updateProductStock now s req))"
  proof (cases rule: cases)
    case same
    with nn show ?thesis by simp
  next
    case (upd q P)
    from fin upd(2) have sp: "nonneg_finite (stock P)" by (simp add: stock_all_def)
    from json upd(1) have qn: "q \<noteq> NaN" by (simp add: json_quantity_def)
    from nn update_stock(1) [OF sp qn] show ?thesis
      unfolding upd(3) by (rule stock_all_update(2))
  qed
  show "stock_all integer_or_inf (snd (updateProductStock now s req))"
    if int: "stock_all js_integer s" and iq: "integral_quantity (sr_quantity req)"
  proof (cases rule: cases)
    case same
    with io [OF int] show ?thesis by simp
  next
    case (upd q P)
    from fin upd(2) have sp: "nonneg_finite (stock P)" by (simp add: stock_all_def)
    from int upd(2) have ip: "js_integer (stock P)" by (simp add: stock_all_def)
    from json upd(1) have qn: "q \<noteq> NaN" by (simp add: json_quantity_def)
    from iq upd(1) have iq': "js_integer q" by (simp add: integral_quantity_def)
    from io [OF int] update_stock(2) [OF sp qn ip iq'] show ?thesis
      unfolding upd(3) by (rule stock_all_update(2))
  qed
qed

text \<open>
  C5, as the specification states it, fails: integrality of the stock is not preserved. On
  \<open>store0\<close>, whose stock is the non-negative integer 24, a direct update by 0.5 is accepted and
  leaves the stock 24.5.
\<close>

theorem fractional_update_breaks_integrality:
  "stock_all nonneg_finite store0 \<and> stock_all js_integer store0
   \<and> updateProductStock 1700000000002 store0 patch_half = (Inr cocaCola245, store245)
   \<and> products store245 ''1'' = Some cocaCola245
   \<and> stock cocaCola245 = Fin (49 / 2)
   \<and> \<not> is_integer (49 / 2)"
proof -
  have nn: "stock_all nonneg_finite store0"
    by (simp add: stock_all_def store0_products cocaCola_def cola_def nonneg_finite_def)
  have ii: "stock_all js_integer store0"
    by (simp add: stock_all_def store0_products cocaCola_def cola_def js_integer_def
        is_integer_def)
  have "(24::rat) + 1 / 2 = 49 / 2" by simp
  then have run: "updateProductStock 1700000000002 store0 patch_half
                    = (Inr cocaCola245, store245)"
    by (simp add: sample_defs round64_49_2 patch_half_def store0_def store245_def
        cocaCola245_def cocaCola_def)
  have fl: "\<lfloor>(49::rat) / 2\<rfloor> = 24" by (rule floor_unique) simp_all
  have ni: "\<not> is_integer (49 / 2)" unfolding is_integer_def fl by simp
  from nn ii run ni show ?thesis by (simp add: store245_def cocaCola245_def store_of_def cola_def)
qed

text \<open>
  C5, amended. From a store in which every stock is a finite non-negative number, one
  movement registration or one direct stock update, with any quantity JSON can carry, leaves
  every stock a non-negative number or \<open>+\<infinity>\<close>; when moreover every stock is an integer and the
  quantity of the request is an integer, it leaves every stock an integer or \<open>+\<infinity>\<close>. The
  statement is about these two handlers; creating or editing a product stores the stock the
  client sends.
\<close>

theorem stock_preserved:
  assumes "stock_all nonneg_finite s" and "json_operation op"
  shows "stock_all nonneg_number (step s op)
       \<and> (stock_all js_integer s \<and> integral_operation op
            \<longrightarrow> stock_all integer_or_inf (step s op))"
proof (cases op)
  case (Register e req)
  with assms register_stock [of s req e] show ?thesis by simp
next
  case (UpdateStock now req)
  with assms update_stock_all [of s req now] show ?thesis by simp
qed

theorem stock_preserved_witness:
  "stock_all nonneg_finite store0
   \<and> json_operation (Register env0 (request ''salida'' (Fin 10)))
   \<and> step store0 (Register env0 (request ''salida'' (Fin 10))) = store1
   \<and> stock_all nonneg_number store1
   \<and> stock_all js_integer store0
   \<and> integral_operation (Register env0 (request ''salida'' (Fin 10)))
   \<and> stock_all integer_or_inf store1"
proof -
  have nn: "stock_all nonneg_finite store0"
    by (simp add: stock_all_def store0_products cocaCola_def cola_def nonneg_finite_def)
  have ii: "stock_all js_integer store0"
    by (simp add: stock_all_def store0_products cocaCola_def cola_def js_integer_def
        is_integer_def)
  have jo: "json_operation (Register env0 (request ''salida'' (Fin 10)))"
    by (simp add: json_quantity_def request_def)
  have io: "integral_operation (Register env0 (request ''salida'' (Fin 10)))"
    by (simp add: integral_quantity_def request_def js_integer_def is_integer_def)
  have run: "step store0 (Register env0 (request ''salida'' (Fin 10))) = store1"
    by (simp add: run_salida10)
  from stock_preserved [OF nn jo] ii io run show ?thesis using nn jo by simp
qed

text \<open>The infinity in that statement is reached: a direct update by \<open>2\<^sup>1\<^sup>0\<^sup>2\<^sup>3\<close> on a stock of
  \<open>2\<^sup>1\<^sup>0\<^sup>2\<^sup>3\<close>, both integers, overflows.\<close>

lemma round64_overflow: "round64 (2 ^ 1024) = PosInf"
proof -
  have "round64 (2 ^ 1024) =
    (let ulp = 2 powi (max 1024 (- 1022) - 52);
         y = of_int (round_even ((2 ^ 1024) / ulp)) * ulp
     in if 2 ^ 1024 \<le> \<bar>y\<bar> then (if 0 < (2 ^ 1024 :: rat) then PosInf else NegInf) else Fin y)"
    by (rule round64_at) (simp_all add: powi_nat)
  moreover have "(2 ^ 1024 :: rat) / 2 powi 972 = of_int (2 ^ 52)"
    by (simp add: powi_nat)
  moreover have "round_even 4503599627370496 = 4503599627370496"
    using round_even_int [of 4503599627370496] by simp
  ultimately show ?thesis
    by (simp add: Let_def powi_nat)
qed

lemma overflow_update_gives_infinity:
  "stock_all nonneg_finite (store_of (cola (Fin (2 ^ 1023)) 1705276800000) Map.empty)
   \<and> stock_all js_integer (store_of (cola (Fin (2 ^ 1023)) 1705276800000) Map.empty)
   \<and> js_integer (Fin (2 ^ 1023))
   \<and> updateProductStock 1700000000002
        (store_of (cola (Fin (2 ^ 1023)) 1705276800000) Map.empty) (patch (Fin (2 ^ 1023)))
      = (Inr (cola PosInf 1700000000002), store_of (cola PosInf 1700000000002) Map.empty)"
proof -
  have i: "is_integer (2 ^ 1023)"
    using is_integer_of_int [of "2 ^ 1023"] by simp
  have "(2 ^ 1023 :: rat) + 2 ^ 1023 = 2 ^ 1024" by simp
  then have "js_add (Fin (2 ^ 1023)) (Fin (2 ^ 1023)) = PosInf"
    by (simp only: js_add.simps round64_overflow)
  then have "updateProductStock 1700000000002
        (store_of (cola (Fin (2 ^ 1023)) 1705276800000) Map.empty) (patch (Fin (2 ^ 1023)))
      = (Inr (cola PosInf 1700000000002), store_of (cola PosInf 1700000000002) Map.empty)"
    by (simp add: updateProductStock_def Let_def js_max_def patch_def store_of_def cola_def
        del: js_add.simps)
  with i show ?thesis
    by (simp add: stock_all_def store_of_def cola_def nonneg_finite_def js_integer_def
        del: js_add.simps)
qed

subsection \<open>Movement statistics: the summary\<close>

text \<open>Sums of non-negative integer quantities: the sum over a part of the list is an
  integer between 0 and the sum over the whole list.\<close>

lemma nat_quantities_Cons:
  "nat_quantities (m # M) \<longleftrightarrow>
     (\<exists>q. quantity m = Fin q \<and> is_integer q \<and> 0 \<le> q) \<and> nat_quantities M"
  by (cases "quantity m") (simp_all add: nat_quantities_def)


lemma nat_quantities_filter: "nat_quantities M \<Longrightarrow> nat_quantities (filter P M)"
  by (induction M) (simp_all add: nat_quantities_def)

lemma exact_quantity_Fin: "quantity m = Fin q \<Longrightarrow> exact_quantity m = q"
  by (simp add: exact_quantity_def)

lemma is_integer_0: "is_integer 0"
  by (simp add: is_integer_def)


lemma sum_exact_integer:
  "nat_quantities M \<Longrightarrow> is_integer (sum_list (map exact_quantity M))"
  by (induction M)
    (auto simp: nat_quantities_Cons exact_quantity_Fin is_integer_0 intro: is_integer_add)

lemma sum_exact_nonneg: "nat_quantities M \<Longrightarrow> 0 \<le> sum_list (map exact_quantity M)"
  by (induction M) (auto simp: nat_quantities_Cons exact_quantity_Fin)


text \<open>Adding two non-negative integers whose sum is at most \<open>2\<^sup>5\<^sup>3\<close> is exact.\<close>

lemma exact_add:
  assumes "is_integer a" and "0 \<le> a" and "is_integer b" and "0 \<le> b"
    and "a + b \<le> 9007199254740992"
  shows "js_add (Fin a) (Fin b) = Fin (a + b)"
proof (rule js_add_safe)
  from assms show "safe_int a" by (simp add: safe_int_def)
  from assms show "safe_int b" by (simp add: safe_int_def)
  from assms show "\<bar>a + b\<bar> \<le> 9007199254740992" by simp
qed

lemma exact_sub:
  assumes "is_integer a" and "0 \<le> a" and "a \<le> 9007199254740992"
    and "is_integer b" and "0 \<le> b" and "b \<le> 9007199254740992"
  shows "js_sub (Fin a) (Fin b) = Fin (a - b)"
proof (rule js_sub_safe)
  from assms show "safe_int a" by (simp add: safe_int_def)
  from assms show "safe_int b" by (simp add: safe_int_def)
  from assms show "\<bar>a - b\<bar> \<le> 9007199254740992" by simp
qed

text \<open>The \<^verbatim>\<open>reduce\<close> that sums quantities is exact on non-negative integers as long as the
  sum stays within \<open>2\<^sup>5\<^sup>3\<close>.\<close>

lemma foldl_quantity_exact:
  assumes "nat_quantities xs" and "is_integer a" and "0 \<le> a"
    and "a + sum_list (map exact_quantity xs) \<le> 9007199254740992"
  shows "foldl (\<lambda>sum m. js_add sum (quantity m)) (Fin a) xs
           = Fin (a + sum_list (map exact_quantity xs))"
  using assms
proof (induction xs arbitrary: a)
  case Nil
  then show ?case by simp
next
  case (Cons m xs)
  from Cons.prems(1) obtain q where q: "quantity m = Fin q" "is_integer q" "0 \<le> q"
    and nq: "nat_quantities xs"
    by (auto simp: nat_quantities_Cons)
  from q(1) have eq: "exact_quantity m = q" by (rule exact_quantity_Fin)
  from nq have "0 \<le> sum_list (map exact_quantity xs)" by (rule sum_exact_nonneg)
  with Cons.prems(4) eq have le: "a + q \<le> 9007199254740992" by simp
  from Cons.prems(2,3) q(2,3) le have add: "js_add (Fin a) (Fin q) = Fin (a + q)"
    by (rule exact_add)
  from Cons.prems(2) q(2) have i: "is_integer (a + q)" by (rule is_integer_add)
  from Cons.prems(3) q(3) have n: "0 \<le> a + q" by simp
  from Cons.prems(4) eq have b: "a + q + sum_list (map exact_quantity xs) \<le> 9007199254740992"
    by simp
  have "foldl (\<lambda>sum m. js_add sum (quantity m)) (Fin a) (m # xs)
          = foldl (\<lambda>sum m. js_add sum (quantity m)) (Fin (a + q)) xs"
    by (simp only: foldl_Cons q(1) add)
  also have "\<dots> = Fin (a + q + sum_list (map exact_quantity xs))"
    using nq i n b by (rule Cons.IH)
  finally show ?case by (simp add: eq add.assoc)
qed

lemma sum_quantity_exact:
  assumes "nat_quantities xs" and "sum_list (map exact_quantity xs) \<le> 9007199254740992"
  shows "sum_quantity xs = Fin (sum_list (map exact_quantity xs))"
  using foldl_quantity_exact [OF assms(1) is_integer_0, simplified, OF assms(2)]
  by (simp add: sum_quantity_def)

text \<open>
  C7, as the specification states it, fails: the totals are binary64 sums. For entradas of
  \<open>2\<^sup>5\<^sup>3\<close> and of 1 and a salida of \<open>2\<^sup>5\<^sup>3\<close> the summary reports \<open>totalQuantityEntradas = 2\<^sup>5\<^sup>3\<close> and
  \<open>netMovement = 0\<close>, where the sum of the entrada quantities is \<open>2\<^sup>5\<^sup>3 + 1\<close> and the difference
  of the two sums is 1.
\<close>

theorem totals_rounded:
  "summary (movementStatistics now0 big_movements)
     = \<lparr> totalMovements = 3, totalEntradas = 2, totalSalidas = 1,
         totalQuantityEntradas = Fin 9007199254740992,
         totalQuantitySalidas = Fin 9007199254740992,
         netMovement = Fin 0, recentMovements = 3 \<rparr>
   \<and> sum_list (map exact_quantity (entradas_of big_movements)) = 9007199254740993
   \<and> sum_list (map exact_quantity (salidas_of big_movements)) = 9007199254740992"
proof -
  have r: "round64 9007199254740992 = Fin 9007199254740992"
    using round64_safe [of 9007199254740992] by (simp add: safe_int_numeral)
  have r0: "round64 0 = Fin 0" by (simp add: round64_def)
  have e: "entradas_of big_movements
             = [big ''entrada'' (Fin 9007199254740992), big ''entrada'' (Fin 1)]"
    and s: "salidas_of big_movements = [big ''salida'' (Fin 9007199254740992)]"
    by (simp_all add: entradas_of_def salidas_of_def big_movements_def big_def)
  have se: "sum_quantity (entradas_of big_movements) = Fin 9007199254740992"
    unfolding e by (simp add: sum_quantity_def big_def r round64_big)
  have ss: "sum_quantity (salidas_of big_movements) = Fin 9007199254740992"
    unfolding s by (simp add: sum_quantity_def big_def r)
  have rc: "length (recent_of now0 big_movements) = 3"
    by (simp add: recent_of_def sevenDaysAgo_def now0_def big_movements_def big_def)
  have "summary (movementStatistics now0 big_movements)
     = \<lparr> totalMovements = 3, totalEntradas = 2, totalSalidas = 1,
         totalQuantityEntradas = Fin 9007199254740992,
         totalQuantitySalidas = Fin 9007199254740992,
         netMovement = Fin 0, recentMovements = 3 \<rparr>"
    unfolding movementStatistics_def Let_def se ss rc
    by (simp add: e s js_sub_def r0) (simp add: big_movements_def)
  moreover have "sum_list (map exact_quantity (entradas_of big_movements)) = 9007199254740993"
    unfolding e by (simp add: exact_quantity_def big_def)
  moreover have "sum_list (map exact_quantity (salidas_of big_movements)) = 9007199254740992"
    unfolding s by (simp add: exact_quantity_def big_def)
  ultimately show ?thesis by simp
qed

text \<open>
  C7, amended. For every list of movements whose quantities are non-negative integers, with
  the sum of the entrada quantities and the sum of the salida quantities both at most
  \<open>2\<^sup>5\<^sup>3\<close>: the summary's \<open>totalQuantityEntradas\<close> and \<open>totalQuantitySalidas\<close> are these two
  sums, and \<open>netMovement\<close> is the first minus the second.
\<close>

theorem net_movement_is_difference:
  assumes "nat_quantities M"
    and "sum_list (map exact_quantity (entradas_of M)) \<le> 9007199254740992"
    and "sum_list (map exact_quantity (salidas_of M)) \<le> 9007199254740992"
  shows "totalQuantityEntradas (summary (movementStatistics now M))
           = Fin (sum_list (map exact_quantity (entradas_of M)))
       \<and> totalQuantitySalidas (summary (movementStatistics now M))
           = Fin (sum_list (map exact_quantity (salidas_of M)))
       \<and> netMovement (summary (movementStatistics now M))
           = Fin (sum_list (map exact_quantity (entradas_of M))
                  - sum_list (map exact_quantity (salidas_of M)))"
proof -
  let ?E = "sum_list (map exact_quantity (entradas_of M))"
  let ?S = "sum_list (map exact_quantity (salidas_of M))"
  from assms(1) have ne: "nat_quantities (entradas_of M)" and ns: "nat_quantities (salidas_of M)"
    unfolding entradas_of_def salidas_of_def by (rule nat_quantities_filter)+
  from ne assms(2) have e: "sum_quantity (entradas_of M) = Fin ?E" by (rule sum_quantity_exact)
  from ns assms(3) have s: "sum_quantity (salidas_of M) = Fin ?S" by (rule sum_quantity_exact)
  have "js_sub (Fin ?E) (Fin ?S) = Fin (?E - ?S)"
    using sum_exact_integer [OF ne] sum_exact_nonneg [OF ne] assms(2)
      sum_exact_integer [OF ns] sum_exact_nonneg [OF ns] assms(3)
    by (rule exact_sub)
  with e s show ?thesis by (simp add: movementStatistics_def Let_def)
qed

theorem net_movement_is_difference_witness:
  "nat_quantities [mv1, mv2, mv3]
   \<and> sum_list (map exact_quantity (entradas_of [mv1, mv2, mv3])) = 16
   \<and> sum_list (map exact_quantity (salidas_of [mv1, mv2, mv3])) = 4
   \<and> totalQuantityEntradas (summary (movementStatistics now0 [mv1, mv2, mv3])) = Fin 16
   \<and> totalQuantitySalidas (summary (movementStatistics now0 [mv1, mv2, mv3])) = Fin 4
   \<and> netMovement (summary (movementStatistics now0 [mv1, mv2, mv3])) = Fin 12"
proof -
  have nq: "nat_quantities [mv1, mv2, mv3]"
    by (simp add: nat_quantities_def mv1_def mv2_def mv3_def is_integer_def)
  have e: "sum_list (map exact_quantity (entradas_of [mv1, mv2, mv3])) = 16"
    by (simp add: entradas_of_def exact_quantity_def mv1_def mv2_def mv3_def)
  have s: "sum_list (map exact_quantity (salidas_of [mv1, mv2, mv3])) = 4"
    by (simp add: salidas_of_def exact_quantity_def mv1_def mv2_def mv3_def)
  from net_movement_is_difference [OF nq, of now0] e s nq show ?thesis by simp
qed

subsection \<open>Movement statistics: the per-product rollup\<close>





























subsection \<open>Movement statistics: recent activity\<close>

text \<open>
  C3, as the specification states it, fails: \<open>recentActivity\<close> is taken from the movements of
  the last seven days, not from the full list. A single movement older than seven days is the
  most recent movement overall, yet \<open>recentActivity\<close> is empty.
\<close>

theorem old_movement_not_in_recent_activity:
  "recentActivity (movementStatistics now0 [mv3]) = []
   \<and> take 10 (newest_first [mv3]) = [mv3]"
  by (simp add: movementStatistics_def Let_def newest_first_def recent_of_def sevenDaysAgo_def
      now0_def mv3_def)

lemma newest_first_sorted:
  "sorted_wrt (\<lambda>a b. createdAt b \<le> createdAt a) (newest_first xs)"
proof -
  have "sorted (map (\<lambda>m. - createdAt m) (newest_first xs))"
    unfolding newest_first_def by (rule sorted_sort_key)
  then show ?thesis by (simp add: sorted_map)
qed

lemma newest_first_mset: "mset (newest_first xs) = mset xs"
  by (simp add: newest_first_def)

lemma newest_first_stable:
  "filter (\<lambda>m. createdAt m = t) (newest_first xs) = filter (\<lambda>m. createdAt m = t) xs"
proof -
  have "filter (\<lambda>m. - createdAt m = - t) (sort_key (\<lambda>m. - createdAt m) xs)
          = filter (\<lambda>m. - createdAt m = - t) xs"
    by (rule sort_key_stable)
  then show ?thesis by (simp add: newest_first_def)
qed

lemma recentActivity_eq:
  "recentActivity (movementStatistics now M) = take 10 (newest_first (recent_of now M))"
  by (simp add: movementStatistics_def Let_def)

text \<open>
  C3, amended. \<open>recentActivity\<close> is the first 10 elements of the movements created within the
  last seven days (\<open>createdAt > now - 7 days\<close>), sorted descending by \<open>createdAt\<close> with a stable
  sort: it is ordered newest first, has \<open>min 10 n\<close> elements when \<open>n\<close> movements are in the
  window, holds only movements of the input that are in the window, no movement of the
  window that it leaves out is newer than one it holds, and its movements of one and the
  same \<open>createdAt\<close> are the first ones of the input with that \<open>createdAt\<close>, in the order of the
  input. When every movement is in the window it is the first 10 of the full list sorted
  descending.
\<close>

theorem recent_activity_window:
  "recentActivity (movementStatistics now M) = take 10 (newest_first (recent_of now M))
   \<and> sorted_wrt (\<lambda>a b. createdAt b \<le> createdAt a) (recentActivity (movementStatistics now M))
   \<and> length (recentActivity (movementStatistics now M)) = min 10 (length (recent_of now M))
   \<and> (\<forall>x \<in> set (recentActivity (movementStatistics now M)).
         x \<in> set M \<and> sevenDaysAgo now < createdAt x)
   \<and> (\<forall>x \<in> set (recentActivity (movementStatistics now M)).
       \<forall>y \<in># mset (recent_of now M) - mset (recentActivity (movementStatistics now M)).
         createdAt y \<le> createdAt x)
   \<and> (\<forall>t. prefix (filter (\<lambda>m. createdAt m = t) (recentActivity (movementStatistics now M)))
                  (filter (\<lambda>m. createdAt m = t) M))
   \<and> ((\<forall>m \<in> set M. sevenDaysAgo now < createdAt m)
        \<longrightarrow> recentActivity (movementStatistics now M) = take 10 (newest_first M))"
proof -
  let ?R = "recent_of now M"
  let ?xs = "newest_first ?R"
  have ra: "recentActivity (movementStatistics now M) = take 10 ?xs"
    by (rule recentActivity_eq)
  have srt: "sorted_wrt (\<lambda>a b. createdAt b \<le> createdAt a) ?xs"
    by (rule newest_first_sorted)
  have split: "take 10 ?xs @ drop 10 ?xs = ?xs" by simp
  have s1: "sorted_wrt (\<lambda>a b. createdAt b \<le> createdAt a) (take 10 ?xs)"
    using srt by (rule sorted_wrt_take)
  have len: "length (take 10 ?xs) = min 10 (length ?R)"
    by (simp add: newest_first_def min.commute)
  have "set (take 10 ?xs) \<subseteq> set ?R"
    using set_take_subset [of 10 ?xs] by (simp add: newest_first_def)
  then have sub: "\<forall>x \<in> set (take 10 ?xs). x \<in> set M \<and> sevenDaysAgo now < createdAt x"
    by (auto simp: recent_of_def)
  have "mset ?R = mset (take 10 ?xs) + mset (drop 10 ?xs)"
    by (simp add: newest_first_mset flip: mset_append)
  then have rest: "mset ?R - mset (take 10 ?xs) = mset (drop 10 ?xs)"
    by simp
  have cross: "\<forall>x \<in> set (take 10 ?xs). \<forall>y \<in> set (drop 10 ?xs). createdAt y \<le> createdAt x"
    using srt sorted_wrt_append [of "\<lambda>a b. createdAt b \<le> createdAt a" "take 10 ?xs" "drop 10 ?xs"]
    by (simp only: split) blast
  have stable: "prefix (filter (\<lambda>m. createdAt m = t) (take 10 ?xs))
                       (filter (\<lambda>m. createdAt m = t) M)" for t
  proof -
    have "filter (\<lambda>m. createdAt m = t) ?xs
            = filter (\<lambda>m. createdAt m = t) (take 10 ?xs)
              @ filter (\<lambda>m. createdAt m = t) (drop 10 ?xs)"
      by (simp only: split flip: filter_append)
    then have "filter (\<lambda>m. createdAt m = t) ?R
            = filter (\<lambda>m. createdAt m = t) (take 10 ?xs)
              @ filter (\<lambda>m. createdAt m = t) (drop 10 ?xs)"
      by (simp only: newest_first_stable)
    then have p: "prefix (filter (\<lambda>m. createdAt m = t) (take 10 ?xs))
                      (filter (\<lambda>m. createdAt m = t) ?R)"
      by (rule prefixI)
    show ?thesis
    proof (cases "sevenDaysAgo now < t")
      case True
      have "filter (\<lambda>m. createdAt m = t) ?R
              = filter (\<lambda>m. sevenDaysAgo now < createdAt m \<and> createdAt m = t) M"
        by (simp only: recent_of_def filter_filter)
      also from True have "\<dots> = filter (\<lambda>m. createdAt m = t) M"
        by (intro filter_cong refl) blast
      finally show ?thesis using p by (simp only:)
    next
      case False
      have "filter (\<lambda>m. createdAt m = t) ?R
              = filter (\<lambda>m. sevenDaysAgo now < createdAt m \<and> createdAt m = t) M"
        by (simp only: recent_of_def filter_filter)
      also from False have "\<dots> = []"
        by (simp only: filter_empty_conv) blast
      finally have "filter (\<lambda>m. createdAt m = t) (take 10 ?xs) = []"
        using p by (simp only: prefix_Nil)
      then show ?thesis by (simp only: Nil_prefix)
    qed
  qed
  have all: "(\<forall>m \<in> set M. sevenDaysAgo now < createdAt m) \<longrightarrow> ?R = M"
    by (simp add: recent_of_def filter_id_conv)
  from cross have cross': "\<forall>x \<in> set (take 10 ?xs). \<forall>y \<in># mset (drop 10 ?xs).
                             createdAt y \<le> createdAt x"
    by (simp only: set_mset_mset)
  from all have all': "(\<forall>m \<in> set M. sevenDaysAgo now < createdAt m)
                         \<longrightarrow> take 10 ?xs = take 10 (newest_first M)"
    by simp
  from stable have stable': "\<forall>t. prefix (filter (\<lambda>m. createdAt m = t) (take 10 ?xs))
                                      (filter (\<lambda>m. createdAt m = t) M)"
    by (rule allI)
  show ?thesis
    unfolding ra rest using s1 len sub cross' stable' all' by (intro conjI refl)
qed

theorem recent_activity_window_witness:
  "recent_of now0 [mv1, mv2, mv3] = [mv1, mv2]
   \<and> recentActivity (movementStatistics now0 [mv1, mv2, mv3]) = [mv2, mv1]
   \<and> list_all (\<lambda>m. sevenDaysAgo now0 < createdAt m) [mv1, mv2]
   \<and> recentActivity (movementStatistics now0 [mv1, mv2]) = take 10 (newest_first [mv1, mv2])
   \<and> take 10 (newest_first [mv1, mv2]) = [mv2, mv1]"
proof -
  have f: "recent_of now0 [mv1, mv2, mv3] = [mv1, mv2]"
    by (simp add: recent_of_def sevenDaysAgo_def now0_def mv1_def mv2_def mv3_def)
  have t: "take 10 (newest_first [mv1, mv2]) = [mv2, mv1]"
    by (simp add: newest_first_def mv1_def mv2_def)
  have w: "\<forall>m \<in> set [mv1, mv2]. sevenDaysAgo now0 < createdAt m"
    by (simp add: sevenDaysAgo_def now0_def mv1_def mv2_def)
  from recent_activity_window [of now0 "[mv1, mv2, mv3]"]
  have "recentActivity (movementStatistics now0 [mv1, mv2, mv3])
     = take 10 (newest_first (recent_of now0 [mv1, mv2, mv3]))"
    by blast
  with f t have r3: "recentActivity (movementStatistics now0 [mv1, mv2, mv3]) = [mv2, mv1]"
    by simp
  from recent_activity_window [of now0 "[mv1, mv2]"] w
  have r2: "recentActivity (movementStatistics now0 [mv1, mv2]) = take 10 (newest_first [mv1, mv2])"
    by blast
  from f r3 w r2 t show ?thesis by simp
qed

end
